theory Spec2Isabelle
  imports Complex_Main
begin

section \<open>Numbers and arrays\<close>

text \<open>
  The classifier of \<^verbatim>\<open>export_model.py\<close> computes on numpy arrays of float64. A float is
  modelled as an exact real number or one of the three special values of IEEE arithmetic;
  rounding and overflow are not modelled, signed zeros are identified. The operations follow
  numpy: they never raise, a division by zero gives an infinity or NaN, and NaN propagates.
\<close>

datatype npfloat = Fin real | PInf | NInf | NaN

fun fadd :: "npfloat \<Rightarrow> npfloat \<Rightarrow> npfloat" where
  "fadd (Fin a) (Fin b) = Fin (a + b)"
| "fadd NaN _ = NaN"
| "fadd _ NaN = NaN"
| "fadd PInf NInf = NaN"
| "fadd NInf PInf = NaN"
| "fadd PInf _ = PInf"
| "fadd _ PInf = PInf"
| "fadd NInf _ = NInf"
| "fadd _ NInf = NInf"

fun fneg :: "npfloat \<Rightarrow> npfloat" where
  "fneg (Fin a) = Fin (- a)"
| "fneg PInf = NInf"
| "fneg NInf = PInf"
| "fneg NaN = NaN"

definition fsub :: "npfloat \<Rightarrow> npfloat \<Rightarrow> npfloat" where
  "fsub x y = fadd x (fneg y)"

fun fmul :: "npfloat \<Rightarrow> npfloat \<Rightarrow> npfloat" where
  "fmul (Fin a) (Fin b) = Fin (a * b)"
| "fmul NaN _ = NaN"
| "fmul _ NaN = NaN"
| "fmul PInf (Fin b) = (if b = 0 then NaN else if 0 < b then PInf else NInf)"
| "fmul NInf (Fin b) = (if b = 0 then NaN else if 0 < b then NInf else PInf)"
| "fmul (Fin a) PInf = (if a = 0 then NaN else if 0 < a then PInf else NInf)"
| "fmul (Fin a) NInf = (if a = 0 then NaN else if 0 < a then NInf else PInf)"
| "fmul PInf PInf = PInf"
| "fmul PInf NInf = NInf"
| "fmul NInf PInf = NInf"
| "fmul NInf NInf = PInf"

fun fdiv :: "npfloat \<Rightarrow> npfloat \<Rightarrow> npfloat" where
  "fdiv (Fin a) (Fin b) =
     (if b = 0 then (if a = 0 then NaN else if 0 < a then PInf else NInf) else Fin (a / b))"
| "fdiv NaN _ = NaN"
| "fdiv _ NaN = NaN"
| "fdiv (Fin a) PInf = Fin 0"
| "fdiv (Fin a) NInf = Fin 0"
| "fdiv PInf (Fin b) = (if 0 \<le> b then PInf else NInf)"
| "fdiv NInf (Fin b) = (if 0 \<le> b then NInf else PInf)"
| "fdiv PInf PInf = NaN"
| "fdiv PInf NInf = NaN"
| "fdiv NInf PInf = NaN"
| "fdiv NInf NInf = NaN"

fun fexp :: "npfloat \<Rightarrow> npfloat" where
  "fexp (Fin a) = Fin (exp a)"
| "fexp PInf = PInf"
| "fexp NInf = Fin 0"
| "fexp NaN = NaN"

fun flog :: "npfloat \<Rightarrow> npfloat" where
  "flog (Fin a) = (if 0 < a then Fin (ln a) else if a = 0 then NInf else NaN)"
| "flog PInf = PInf"
| "flog NInf = NaN"
| "flog NaN = NaN"

fun fabs :: "npfloat \<Rightarrow> npfloat" where
  "fabs (Fin a) = Fin \<bar>a\<bar>"
| "fabs PInf = PInf"
| "fabs NInf = PInf"
| "fabs NaN = NaN"

text \<open>Comparison \<^verbatim>\<open><\<close>: false as soon as one side is NaN.\<close>

fun flt :: "npfloat \<Rightarrow> npfloat \<Rightarrow> bool" where
  "flt (Fin a) (Fin b) = (a < b)"
| "flt NaN _ = False"
| "flt _ NaN = False"
| "flt NInf NInf = False"
| "flt NInf _ = True"
| "flt PInf _ = False"
| "flt _ PInf = True"
| "flt _ NInf = False"

definition fgt :: "npfloat \<Rightarrow> npfloat \<Rightarrow> bool" where
  "fgt x y = flt y x"

fun is_fin :: "npfloat \<Rightarrow> bool" where
  "is_fin (Fin a) = True"
| "is_fin _ = False"

fun the_fin :: "npfloat \<Rightarrow> real" where
  "the_fin (Fin a) = a"
| "the_fin _ = 0"

type_synonym vec = "npfloat list"
type_synonym mat = "npfloat list list"

text \<open>The two additive floors of the source, \<^verbatim>\<open>1e-10\<close> and \<^verbatim>\<open>1e-5\<close>.\<close>

definition eps10 :: npfloat where
  "eps10 = Fin (1 / 10 ^ 10)"

definition eps5 :: npfloat where
  "eps5 = Fin (1 / 10 ^ 5)"

text \<open>\<^verbatim>\<open>np.sum\<close> of a vector, \<^verbatim>\<open>np.zeros\<close>, \<^verbatim>\<open>M[:, j]\<close>, \<^verbatim>\<open>M[i, j] = v\<close>, \<^verbatim>\<open>M[:, k] = v\<close>,
  and the elementwise sum of two vectors or matrices of equal shape.\<close>

definition fsum :: "vec \<Rightarrow> npfloat" where
  "fsum xs = foldl fadd (Fin 0) xs"

definition zeros :: "nat \<Rightarrow> vec" where
  "zeros n = replicate n (Fin 0)"

definition zeros2 :: "nat \<Rightarrow> nat \<Rightarrow> mat" where
  "zeros2 n k = replicate n (zeros k)"

definition column :: "nat \<Rightarrow> mat \<Rightarrow> vec" where
  "column j M = map (\<lambda>row. row ! j) M"

definition set2 :: "mat \<Rightarrow> nat \<Rightarrow> nat \<Rightarrow> npfloat \<Rightarrow> mat" where
  "set2 M i j v = M[i := (M ! i)[j := v]]"

definition set_col :: "mat \<Rightarrow> nat \<Rightarrow> vec \<Rightarrow> mat" where
  "set_col M k v = map (\<lambda>n. (M ! n)[k := v ! n]) [0..<length M]"

definition vadd :: "vec \<Rightarrow> vec \<Rightarrow> vec" where
  "vadd xs ys = map2 fadd xs ys"

definition madd :: "mat \<Rightarrow> mat \<Rightarrow> mat" where
  "madd A B = map2 vadd A B"

text \<open>
  \<^verbatim>\<open>scipy.special.logsumexp\<close> is library code: it returns \<open>log (sum (exp a))\<close>, shifting by the
  maximum only to avoid overflow, which exact arithmetic does not need. It is applied to
  vectors of \<open>n_states\<close> entries and to flattened \<open>n_states \<times> n_states\<close> matrices.
\<close>

definition logsumexp :: "vec \<Rightarrow> npfloat" where
  "logsumexp xs = flog (fsum (map fexp xs))"

text \<open>\<^verbatim>\<open>np.var(a, axis=0)\<close> at one sample: the mean of the squared deviations from the mean.\<close>

definition np_var :: "vec \<Rightarrow> npfloat" where
  "np_var xs =
     (let n = Fin (real (length xs));
          m = fdiv (fsum xs) n
      in fdiv (fsum (map (\<lambda>x. fmul (fsub x m) (fsub x m)) xs)) n)"

text \<open>\<^verbatim>\<open>np.linspace(0, 1, K)\<close>.\<close>

definition linspace01 :: "nat \<Rightarrow> vec" where
  "linspace01 K = (if K = 1 then [Fin 0] else map (\<lambda>k. Fin (real k / real (K - 1))) [0..<K])"

section \<open>The model object and its collaborators\<close>

datatype py_error = ValueError string | IndexError

text \<open>
  The constructor arguments that the algorithm reads (\<^verbatim>\<open>verbose\<close> only prints and
  \<^verbatim>\<open>random_state\<close> is never read). \<open>mode\<close> is the attribute \<^verbatim>\<open>self.mode\<close>, already lower-cased
  by the constructor.
\<close>

record 'p config =
  n_states :: nat
  n_iter :: nat
  rf_params :: "'p option"
  n_estimators :: nat
  max_depth :: nat
  tol :: npfloat
  mode :: string

text \<open>
  The fitted attributes. \<open>rng\<close> is the state of the random source the forests draw from
  (they are built with \<^verbatim>\<open>random_state=None\<close>), so that two fits need not agree.
  The fields \<open>startprob\<close>, \<open>transmat\<close> and \<open>monitor\<close> are the attributes \<^verbatim>\<open>startprob_\<close>,
  \<^verbatim>\<open>transmat_\<close> and \<^verbatim>\<open>monitor_\<close> (a name cannot end with an underscore here). The record
  describes the object once \<^verbatim>\<open>_init_params\<close> has run; on an object fresh from the
  constructor \<^verbatim>\<open>startprob_\<close> and \<^verbatim>\<open>transmat_\<close> are \<^verbatim>\<open>None\<close>.
\<close>

record ('e, 'r) msrf =
  experts :: "'e list"
  startprob :: vec
  transmat :: mat
  monitor :: vec
  rng :: 'r

text \<open>
  The external collaborators, black boxes given at their interface: k-means clustering
  (\<^verbatim>\<open>KMeans(n_clusters, n_init=10, random_state=42).fit_predict\<close>, one label below
  \<open>n_clusters\<close> per sample), and the random forest: its two constructor calls, \<^verbatim>\<open>fit\<close> with an
  optional sample weight, the list \<^verbatim>\<open>[tree.predict(X) for tree in expert.estimators_]\<close> (one
  vector of \<open>len(X)\<close> predictions per tree) and \<^verbatim>\<open>predict_proba\<close> (one row of two
  probabilities per sample). They are assumed to return; what they raise is not modelled.
\<close>

record ('x, 'y, 'p, 'e, 'r) collaborators =
  kmeans_fit_predict :: "nat \<Rightarrow> 'x list \<Rightarrow> nat list"
  rf_of_params :: "'p \<Rightarrow> 'e"
  rf_default :: "nat \<Rightarrow> nat \<Rightarrow> 'e"
  rf_fit :: "'r \<Rightarrow> 'e \<Rightarrow> 'x list \<Rightarrow> 'y list \<Rightarrow> vec option \<Rightarrow> 'e \<times> 'r"
  tree_predictions :: "'e \<Rightarrow> 'x list \<Rightarrow> mat"
  rf_predict_proba :: "'e \<Rightarrow> 'x list \<Rightarrow> mat"

section \<open>\<^verbatim>\<open>_init_params\<close>\<close>

definition count_transitions :: "nat \<Rightarrow> nat list \<Rightarrow> mat" where
  "count_transitions K labels =
     foldl (\<lambda>trans_counts t.
              set2 trans_counts (labels ! t) (labels ! (t + 1))
                (fadd (trans_counts ! (labels ! t) ! (labels ! (t + 1))) (Fin 1)))
       (zeros2 K K) [0..<length labels - 1]"

text \<open>\<^verbatim>\<open>np.bincount(labels, minlength=K)\<close> for labels below \<open>K\<close>.\<close>

definition bincount :: "nat list \<Rightarrow> nat \<Rightarrow> vec" where
  "bincount labels K = map (\<lambda>k. Fin (real (count_list labels k))) [0..<K]"

fun make_experts ::
  "('x, 'y, 'p, 'e, 'r) collaborators \<Rightarrow> 'p config \<Rightarrow> 'x list \<Rightarrow> 'y list \<Rightarrow>
     nat \<Rightarrow> 'e list \<times> 'r \<Rightarrow> 'e list \<times> 'r" where
  "make_experts env cfg X y 0 (es, g) = (es, g)"
| "make_experts env cfg X y (Suc n) (es, g) =
     (let rf = (case rf_params cfg of
                  Some p \<Rightarrow> rf_of_params env p
                | None \<Rightarrow> rf_default env (n_estimators cfg) (max_depth cfg));
          (rf', g') = rf_fit env g rf X y None
      in make_experts env cfg X y n (es @ [rf'], g'))"

definition init_params ::
  "('x, 'y, 'p, 'e, 'r) collaborators \<Rightarrow> 'p config \<Rightarrow> ('e, 'r) msrf \<Rightarrow> 'x list \<Rightarrow> 'y list \<Rightarrow>
     ('e, 'r) msrf" where
  "init_params env cfg self X y =
     (let labels = kmeans_fit_predict env (n_states cfg) X;
          trans_counts = count_transitions (n_states cfg) labels;
          transmat_new = map (\<lambda>row. map (\<lambda>c. fdiv c (fadd (fsum row) eps10)) row) trans_counts;
          start_counts = bincount labels (n_states cfg);
          startprob_new = map (\<lambda>c. fdiv c (fsum start_counts)) start_counts;
          (es, g) = make_experts env cfg X y (n_states cfg) ([], rng self)
      in self\<lparr>experts := es, startprob := startprob_new, transmat := transmat_new, rng := g\<rparr>)"

section \<open>\<^verbatim>\<open>_get_expert_confidence\<close>\<close>

text \<open>
  The loop \<^verbatim>\<open>for k, expert in enumerate(self.experts): scores[:, k] = ...\<close>: the score
  vector of the expert is computed, which may raise, and assigned to column \<open>k\<close>; the
  assignment (and, in risk mode, the read \<^verbatim>\<open>state_prototypes[k]\<close> before it) raises
  \<^verbatim>\<open>IndexError\<close> when there are more experts than columns.
\<close>

fun score_loop ::
  "(nat \<Rightarrow> 'e \<Rightarrow> py_error + vec) \<Rightarrow> nat \<Rightarrow> mat \<Rightarrow> (nat \<times> 'e) list \<Rightarrow>
     py_error + mat" where
  "score_loop f K scores [] = Inr scores"
| "score_loop f K scores ((k, expert) # rest) =
     (case f k expert of
        Inl e \<Rightarrow> Inl e
      | Inr v \<Rightarrow>
          (if k < K then score_loop f K (set_col scores k v) rest else Inl IndexError))"

definition confidence_score ::
  "('x, 'y, 'p, 'e, 'r) collaborators \<Rightarrow> 'x list \<Rightarrow> nat \<Rightarrow> 'e \<Rightarrow> py_error + vec" where
  "confidence_score env X k expert =
     (let all_tree_preds = tree_predictions env expert X;
          variance = map (\<lambda>n. np_var (column n all_tree_preds)) [0..<length X]
      in Inr (map (\<lambda>v. fdiv (Fin 1) (fadd v eps5)) variance))"

text \<open>
  \<^verbatim>\<open>expert.predict_proba(X)[:, 1]\<close>: the column of the positive class; numpy raises
  \<^verbatim>\<open>IndexError\<close> when the matrix has fewer than two columns.
\<close>

definition positive_column :: "mat \<Rightarrow> py_error + vec" where
  "positive_column proba =
     (if \<forall>row\<in>set proba. 1 < length row then Inr (column 1 proba) else Inl IndexError)"

definition risk_score ::
  "('x, 'y, 'p, 'e, 'r) collaborators \<Rightarrow> nat \<Rightarrow> 'x list \<Rightarrow> nat \<Rightarrow> 'e \<Rightarrow> py_error + vec" where
  "risk_score env K X k expert =
     (let state_prototypes = linspace01 K
      in case positive_column (rf_predict_proba env expert X) of
           Inl e \<Rightarrow> Inl e
         | Inr risk_pred \<Rightarrow>
             (let distance = map (\<lambda>p. fabs (fsub p (state_prototypes ! k))) risk_pred
              in Inr (map (\<lambda>d. fexp (fmul (fneg d) (Fin 5))) distance)))"

definition normalize_rows :: "mat \<Rightarrow> mat" where
  "normalize_rows scores = map (\<lambda>row. map (\<lambda>s. fdiv s (fadd (fsum row) eps10)) row) scores"

definition get_expert_confidence ::
  "('x, 'y, 'p, 'e, 'r) collaborators \<Rightarrow> 'p config \<Rightarrow> ('e, 'r) msrf \<Rightarrow> 'x list \<Rightarrow>
     py_error + mat" where
  "get_expert_confidence env cfg self X =
     (let n_samples = length X;
          scores = zeros2 n_samples (n_states cfg)
      in case (if mode cfg = ''confidence'' then
                 score_loop (confidence_score env X) (n_states cfg) scores
                   (enumerate 0 (experts self))
               else if mode cfg = ''risk'' then
                 score_loop (risk_score env (n_states cfg) X) (n_states cfg) scores
                   (enumerate 0 (experts self))
               else Inl (ValueError (''Unknown mode: '' @ mode cfg)))
         of Inl e \<Rightarrow> Inl e
          | Inr scores' \<Rightarrow> Inr (normalize_rows scores'))"

section \<open>\<^verbatim>\<open>_forward_backward\<close>\<close>

text \<open>
  The arrays have the shapes the class gives them: \<open>n_states\<close> entries in \<^verbatim>\<open>startprob_\<close>,
  \<open>n_states\<close> rows and columns in \<^verbatim>\<open>transmat_\<close>, \<open>n_states\<close> columns in \<open>log_emissions\<close>.
  What numpy does with other shapes (broadcasting, or an error) is not modelled. There is at
  least one regime: what \<^verbatim>\<open>logsumexp\<close> does with an empty vector, the only one it is given when
  \<open>n_states\<close> is 0, is not modelled either. The passes assign the entries of \<open>log_alpha\<close>,
  \<open>log_beta\<close> and \<open>log_xi\<close> one by one, as the source does.
\<close>

definition forward_pass :: "nat \<Rightarrow> vec \<Rightarrow> mat \<Rightarrow> mat \<Rightarrow> nat \<Rightarrow> mat" where
  "forward_pass K log_start log_trans log_B len =
     foldl (\<lambda>log_alpha t.
              foldl (\<lambda>log_alpha j.
                       set2 log_alpha t j
                         (fadd (logsumexp (vadd (log_alpha ! (t - 1)) (column j log_trans)))
                               (log_B ! t ! j)))
                log_alpha [0..<K])
       ((zeros2 len K)[0 := vadd log_start (log_B ! 0)]) [1..<len]"

definition backward_pass :: "nat \<Rightarrow> mat \<Rightarrow> mat \<Rightarrow> nat \<Rightarrow> mat" where
  "backward_pass K log_trans log_B len =
     foldl (\<lambda>log_beta t.
              foldl (\<lambda>log_beta i.
                       set2 log_beta t i
                         (logsumexp (vadd (vadd (log_trans ! i) (log_B ! (t + 1)))
                                          (log_beta ! (t + 1)))))
                log_beta [0..<K])
       (zeros2 len K) (rev [0..<len - 1])"

text \<open>\<^verbatim>\<open>log_gamma -= logsumexp(log_gamma, axis=1, keepdims=True)\<close>.\<close>

definition normalize_log_rows :: "mat \<Rightarrow> mat" where
  "normalize_log_rows log_gamma = map (\<lambda>row. map (\<lambda>x. fsub x (logsumexp row)) row) log_gamma"

definition log_xi_matrix :: "nat \<Rightarrow> mat \<Rightarrow> mat \<Rightarrow> mat \<Rightarrow> mat \<Rightarrow> nat \<Rightarrow> mat" where
  "log_xi_matrix K log_alpha log_trans log_B log_beta t =
     foldl (\<lambda>log_xi i.
              foldl (\<lambda>log_xi j.
                       set2 log_xi i j
                         (fadd (fadd (fadd (log_alpha ! t ! i) (log_trans ! i ! j))
                                     (log_B ! (t + 1) ! j))
                               (log_beta ! (t + 1) ! j)))
                log_xi [0..<K])
       (zeros2 K K) [0..<K]"

definition accumulate_xi :: "nat \<Rightarrow> mat \<Rightarrow> mat \<Rightarrow> mat \<Rightarrow> mat \<Rightarrow> nat \<Rightarrow> mat \<Rightarrow> mat" where
  "accumulate_xi K log_alpha log_trans log_B log_beta len xi_sum =
     foldl (\<lambda>xi_sum t.
              let log_xi = log_xi_matrix K log_alpha log_trans log_B log_beta t;
                  log_xi' = map (map (\<lambda>x. fsub x (logsumexp (concat log_xi)))) log_xi
              in madd xi_sum (map (map fexp) log_xi'))
       xi_sum [0..<len - 1]"

text \<open>
  The loop over the chains. \<open>log_B\<close> is the slice \<^verbatim>\<open>log_emissions[cursor : cursor + len]\<close>,
  which numpy truncates at the end of the array. With at least one regime, the reads
  \<^verbatim>\<open>log_B[0]\<close> and \<^verbatim>\<open>log_B[t, j]\<close> of the forward pass raise \<^verbatim>\<open>IndexError\<close> exactly when the
  chain is empty or the slice is shorter than the chain; nothing has been written outside
  the call by then, so the model tests for it before the pass.
\<close>

fun forward_backward_chains ::
  "nat \<Rightarrow> vec \<Rightarrow> mat \<Rightarrow> mat \<Rightarrow> nat list \<Rightarrow> nat \<Rightarrow> mat \<times> mat \<times> npfloat \<Rightarrow>
     py_error + mat \<times> mat \<times> npfloat" where
  "forward_backward_chains K log_start log_trans log_emissions [] cursor acc = Inr acc"
| "forward_backward_chains K log_start log_trans log_emissions (len # lengths) cursor
       (gamma, xi_sum, total_log_likelihood) =
     (let log_B = take len (drop cursor log_emissions)
      in if len = 0 \<or> length log_B < len then Inl IndexError
         else
           let log_alpha = forward_pass K log_start log_trans log_B len;
               total_log_likelihood' = fadd total_log_likelihood (logsumexp (last log_alpha));
               log_beta = backward_pass K log_trans log_B len;
               log_gamma = normalize_log_rows (madd log_alpha log_beta);
               gamma' = take cursor gamma @ map (map fexp) log_gamma @ drop (cursor + len) gamma;
               xi_sum' = accumulate_xi K log_alpha log_trans log_B log_beta len xi_sum
           in forward_backward_chains K log_start log_trans log_emissions lengths
                (cursor + len) (gamma', xi_sum', total_log_likelihood'))"

definition forward_backward ::
  "'p config \<Rightarrow> ('e, 'r) msrf \<Rightarrow> mat \<Rightarrow> nat list \<Rightarrow> py_error + mat \<times> mat \<times> npfloat" where
  "forward_backward cfg self log_emissions lengths =
     (let n_samples = length log_emissions;
          gamma = zeros2 n_samples (n_states cfg);
          xi_sum = zeros2 (n_states cfg) (n_states cfg);
          log_start = map (\<lambda>p. flog (fadd p eps10)) (startprob self);
          log_trans = map (map (\<lambda>p. flog (fadd p eps10))) (transmat self)
      in forward_backward_chains (n_states cfg) log_start log_trans log_emissions lengths 0
           (gamma, xi_sum, Fin 0))"

section \<open>\<^verbatim>\<open>fit\<close>\<close>

text \<open>
  The features given to the public entry points. A sample is its list of feature values.
  The input is one two-dimensional array, with one row per sample, or anything for which
  \<^verbatim>\<open>isinstance(X_input, list)\<close> holds: a Python list whose elements are two-dimensional
  arrays (sequences of samples) or one-dimensional ones (an array or a plain list of
  feature values). \<^verbatim>\<open>np.vstack\<close> stacks the rows of the former and takes each of the latter
  as one row, and raises \<^verbatim>\<open>ValueError\<close> on an empty list and on rows of different widths;
  \<^verbatim>\<open>len\<close> is the number of rows of the former and the number of feature values of the
  latter. \<^verbatim>\<open>fit\<close> takes the labels with the features: one label vector with an array, a
  list of label vectors (for \<^verbatim>\<open>np.concatenate\<close>) with a list.
\<close>

datatype 'v element = Matrix "'v list list" | Vector "'v list"

datatype 'v input = Array "'v list list" | Sequences "'v element list"

datatype ('v, 'y) training =
  Labelled_Array "'v list list" "'y list" | Labelled_Sequences "'v element list" "'y list list"

definition need_array :: py_error where
  "need_array = ValueError ''need at least one array to concatenate''"

definition dimension_mismatch :: py_error where
  "dimension_mismatch = ValueError ''all the input array dimensions must match exactly''"

fun rows_of :: "'v element \<Rightarrow> 'v list list" where
  "rows_of (Matrix rows) = rows"
| "rows_of (Vector features) = [features]"

fun len :: "'v element \<Rightarrow> nat" where
  "len (Matrix rows) = length rows"
| "len (Vector features) = length features"

definition same_width :: "'v list list \<Rightarrow> bool" where
  "same_width rows = (case rows of [] \<Rightarrow> True | r # rs \<Rightarrow> \<forall>r'\<in>set rs. length r' = length r)"

definition vstack :: "'v element list \<Rightarrow> py_error + 'v list list" where
  "vstack X_input =
     (if X_input = [] then Inl need_array
      else if same_width (concat (map rows_of X_input)) then Inr (concat (map rows_of X_input))
      else Inl dimension_mismatch)"

fun fit_args ::
  "('v, 'y) training \<Rightarrow> py_error + 'v list list \<times> 'y list \<times> nat list" where
  "fit_args (Labelled_Sequences X_input y_input) =
     (case vstack X_input of
        Inl e \<Rightarrow> Inl e
      | Inr X_flat \<Rightarrow>
          (if y_input = [] then Inl need_array
           else Inr (X_flat, concat y_input, map len X_input)))"
| "fit_args (Labelled_Array X_input y_input) = Inr (X_input, y_input, [length X_input])"

text \<open>
  The loop \<^verbatim>\<open>for k in range(self.n_states)\<close> of the M-step: expert \<open>k\<close> is refit, in place, with
  the weights \<^verbatim>\<open>gamma[:, k]\<close> when they sum to more than \<^verbatim>\<open>1e-5\<close>.
\<close>

fun refit_experts ::
  "('x, 'y, 'p, 'e, 'r) collaborators \<Rightarrow> 'x list \<Rightarrow> 'y list \<Rightarrow> mat \<Rightarrow> nat list \<Rightarrow>
     'e list \<times> 'r \<Rightarrow> py_error + 'e list \<times> 'r" where
  "refit_experts env X y gamma [] (es, g) = Inr (es, g)"
| "refit_experts env X y gamma (k # ks) (es, g) =
     (let weights = column k gamma
      in if fgt (fsum weights) eps5 then
           (if k < length es then
              (let (e', g') = rf_fit env g (es ! k) X y (Some weights)
               in refit_experts env X y gamma ks (es[k := e'], g'))
            else Inl IndexError)
         else refit_experts env X y gamma ks (es, g))"

text \<open>
  One pass through the body of the EM loop, for the loop index \<open>i\<close>: either the \<^verbatim>\<open>break\<close> is
  taken, or the M-step runs and the loop goes on with the new previous log-likelihood.
  When a step raises, the pass ends with the error; what had been assigned to the object
  before is not kept in the error.
\<close>

datatype ('e, 'r) outcome = Converged "('e, 'r) msrf" | Continue "('e, 'r) msrf" npfloat

definition row_normalize :: "mat \<Rightarrow> mat" where
  "row_normalize xi_sum = map (\<lambda>row. map (\<lambda>x. fdiv x (fsum row)) row) xi_sum"

definition log_floor :: "mat \<Rightarrow> mat" where
  "log_floor expert_confidences = map (map (\<lambda>c. flog (fadd c eps10))) expert_confidences"

definition em_iteration ::
  "('x, 'y, 'p, 'e, 'r) collaborators \<Rightarrow> 'p config \<Rightarrow> 'x list \<Rightarrow> 'y list \<Rightarrow> nat list \<Rightarrow>
     nat \<Rightarrow> ('e, 'r) msrf \<times> npfloat \<Rightarrow> py_error + ('e, 'r) outcome" where
  "em_iteration env cfg X_flat y_flat lengths i st =
     (case st of (self, prev_log_likelihood) \<Rightarrow>
      (case get_expert_confidence env cfg self X_flat of
        Inl e \<Rightarrow> Inl e
      | Inr expert_confidences \<Rightarrow>
          (case forward_backward cfg self (log_floor expert_confidences) lengths of
             Inl e \<Rightarrow> Inl e
           | Inr (gamma, xi_sum, curr_log_likelihood) \<Rightarrow>
               (let self1 = self\<lparr>monitor := monitor self @ [curr_log_likelihood]\<rparr>;
                    delta = fsub curr_log_likelihood prev_log_likelihood
                in if 1 < i \<and> flt (fabs delta) (tol cfg) then Inr (Converged self1)
                   else
                     (let self2 = self1\<lparr>transmat := row_normalize xi_sum\<rparr>
                      in case refit_experts env X_flat y_flat gamma [0..<n_states cfg]
                                (experts self2, rng self2) of
                           Inl e \<Rightarrow> Inl e
                         | Inr (es, g) \<Rightarrow>
                             Inr (Continue (self2\<lparr>experts := es, rng := g\<rparr>)
                                    curr_log_likelihood))))))"

text \<open>\<^verbatim>\<open>for i in range(self.n_iter)\<close>, with \<open>n\<close> the number of passes still to run.\<close>

fun em_loop ::
  "('x, 'y, 'p, 'e, 'r) collaborators \<Rightarrow> 'p config \<Rightarrow> 'x list \<Rightarrow> 'y list \<Rightarrow> nat list \<Rightarrow>
     nat \<Rightarrow> nat \<Rightarrow> ('e, 'r) msrf \<times> npfloat \<Rightarrow> py_error + ('e, 'r) msrf" where
  "em_loop env cfg X_flat y_flat lengths i 0 st = Inr (fst st)"
| "em_loop env cfg X_flat y_flat lengths i (Suc n) st =
     (case em_iteration env cfg X_flat y_flat lengths i st of
        Inl e \<Rightarrow> Inl e
      | Inr (Converged self) \<Rightarrow> Inr self
      | Inr (Continue self curr_log_likelihood) \<Rightarrow>
          em_loop env cfg X_flat y_flat lengths (Suc i) n (self, curr_log_likelihood))"

definition fit ::
  "('v list, 'y, 'p, 'e, 'r) collaborators \<Rightarrow> 'p config \<Rightarrow> ('e, 'r) msrf \<Rightarrow>
     ('v, 'y) training \<Rightarrow> py_error + ('e, 'r) msrf" where
  "fit env cfg self Xy_input =
     (case fit_args Xy_input of
        Inl e \<Rightarrow> Inl e
      | Inr (X_flat, y_flat, lengths) \<Rightarrow>
          (let self1 = init_params env cfg self X_flat y_flat;
               self2 = self1\<lparr>monitor := []\<rparr>
           in em_loop env cfg X_flat y_flat lengths 0 (n_iter cfg) (self2, NInf)))"

section \<open>\<^verbatim>\<open>predict_proba\<close> and \<^verbatim>\<open>predict\<close>\<close>

fun predict_args :: "'v input \<Rightarrow> py_error + 'v list list \<times> nat list" where
  "predict_args (Sequences X_input) =
     (case vstack X_input of
        Inl e \<Rightarrow> Inl e
      | Inr X_flat \<Rightarrow> Inr (X_flat, map len X_input))"
| "predict_args (Array X_input) = Inr (X_input, [length X_input])"

fun blend ::
  "('x, 'y, 'p, 'e, 'r) collaborators \<Rightarrow> ('e, 'r) msrf \<Rightarrow> 'x list \<Rightarrow> mat \<Rightarrow> nat list \<Rightarrow>
     vec \<Rightarrow> py_error + vec" where
  "blend env self X_flat gamma [] final_risk_prob = Inr final_risk_prob"
| "blend env self X_flat gamma (k # ks) final_risk_prob =
     (if k < length (experts self) then
        (case positive_column (rf_predict_proba env (experts self ! k) X_flat) of
           Inl e \<Rightarrow> Inl e
         | Inr expert_risk \<Rightarrow>
             blend env self X_flat gamma ks
               (vadd final_risk_prob (map2 fmul (column k gamma) expert_risk)))
      else Inl IndexError)"

definition predict_proba ::
  "('v list, 'y, 'p, 'e, 'r) collaborators \<Rightarrow> 'p config \<Rightarrow> ('e, 'r) msrf \<Rightarrow> 'v input \<Rightarrow>
     py_error + mat" where
  "predict_proba env cfg self X_input =
     (case predict_args X_input of
        Inl e \<Rightarrow> Inl e
      | Inr (X_flat, lengths) \<Rightarrow>
          (case get_expert_confidence env cfg self X_flat of
             Inl e \<Rightarrow> Inl e
           | Inr expert_confidences \<Rightarrow>
               (case forward_backward cfg self (log_floor expert_confidences) lengths of
                  Inl e \<Rightarrow> Inl e
                | Inr (gamma, xi_sum, log_likelihood) \<Rightarrow>
                    (case blend env self X_flat gamma [0..<n_states cfg] (zeros (length X_flat)) of
                       Inl e \<Rightarrow> Inl e
                     | Inr final_risk_prob \<Rightarrow>
                         Inr (map (\<lambda>p. [fsub (Fin 1) p, p]) final_risk_prob)))))"

definition predict ::
  "('v list, 'y, 'p, 'e, 'r) collaborators \<Rightarrow> 'p config \<Rightarrow> ('e, 'r) msrf \<Rightarrow> 'v input \<Rightarrow>
     py_error + nat list" where
  "predict env cfg self X_input =
     (case predict_proba env cfg self X_input of
        Inl e \<Rightarrow> Inl e
      | Inr probs \<Rightarrow> Inr (map (\<lambda>p. if fgt p (Fin (1 / 2)) then 1 else 0) (column 1 probs)))"

section \<open>Stand-ins for the collaborators\<close>

text \<open>
  Stand-ins for the collaborators, to run the model on concrete inputs: fixed cluster labels,
  forests numbered by the fits they have seen, and fixed answers of the trees and of the
  forest.
\<close>

definition stub_env ::
  "nat list \<Rightarrow> mat \<Rightarrow> mat \<Rightarrow> (nat, nat, unit, nat, unit) collaborators" where
  "stub_env labels preds proba =
     \<lparr>kmeans_fit_predict = (\<lambda>K X. labels),
      rf_of_params = (\<lambda>p. 0),
      rf_default = (\<lambda>n d. 0),
      rf_fit = (\<lambda>g e X y w. (Suc e, g)),
      tree_predictions = (\<lambda>e X. preds),
      rf_predict_proba = (\<lambda>e X. proba)\<rparr>"

text \<open>The same stand-ins for samples given as lists of feature values.\<close>

definition stub_rows ::
  "nat list \<Rightarrow> mat \<Rightarrow> mat \<Rightarrow> (nat list, nat, unit, nat, unit) collaborators" where
  "stub_rows labels preds proba =
     \<lparr>kmeans_fit_predict = (\<lambda>K X. labels),
      rf_of_params = (\<lambda>p. 0),
      rf_default = (\<lambda>n d. 0),
      rf_fit = (\<lambda>g e X y w. (Suc e, g)),
      tree_predictions = (\<lambda>e X. preds),
      rf_predict_proba = (\<lambda>e X. proba)\<rparr>"

definition stub_cfg :: "nat \<Rightarrow> nat \<Rightarrow> string \<Rightarrow> unit config" where
  "stub_cfg K n m =
     \<lparr>n_states = K, n_iter = n, rf_params = None, n_estimators = 50, max_depth = 10,
      tol = Fin (1 / 10 ^ 3), mode = m\<rparr>"

definition fresh :: "(nat, unit) msrf" where
  "fresh = \<lparr>experts = [], startprob = [], transmat = [], monitor = [], rng = ()\<rparr>"

fun outcome_state :: "('e, 'r) outcome \<Rightarrow> ('e, 'r) msrf" where
  "outcome_state (Converged self) = self"
| "outcome_state (Continue self curr_log_likelihood) = self"

section \<open>Iterations completed\<close>

text \<open>
  The object and the previous log-likelihood once \<open>k\<close> iterations have been completed, each
  with its M-step, by the loop that began at the index \<open>i\<close>; nothing when one of them raised
  or took the \<^verbatim>\<open>break\<close>.
\<close>

fun em_passes ::
  "('x, 'y, 'p, 'e, 'r) collaborators \<Rightarrow> 'p config \<Rightarrow> 'x list \<Rightarrow> 'y list \<Rightarrow> nat list \<Rightarrow>
     nat \<Rightarrow> nat \<Rightarrow> ('e, 'r) msrf \<times> npfloat \<Rightarrow> (('e, 'r) msrf \<times> npfloat) option" where
  "em_passes env cfg X_flat y_flat lengths i 0 st = Some st"
| "em_passes env cfg X_flat y_flat lengths i (Suc k) st =
     (case em_iteration env cfg X_flat y_flat lengths i st of
        Inr (Continue self curr_log_likelihood) \<Rightarrow>
          em_passes env cfg X_flat y_flat lengths (Suc i) k (self, curr_log_likelihood)
      | Inr (Converged self) \<Rightarrow> None
      | Inl e \<Rightarrow> None)"

section \<open>Well-formed inputs\<close>




text \<open>A float that is a non-negative real number.\<close>

fun nonneg :: "npfloat \<Rightarrow> bool" where
  "nonneg (Fin a) = (0 \<le> a)"
| "nonneg _ = False"

text \<open>A matrix of \<open>N\<close> rows and \<open>K\<close> columns whose entries are non-negative real numbers.\<close>

definition nonneg_matrix :: "nat \<Rightarrow> nat \<Rightarrow> mat \<Rightarrow> bool" where
  "nonneg_matrix N K M = (length M = N \<and> (\<forall>row\<in>set M. length row = K \<and> (\<forall>x\<in>set row. nonneg x)))"


text \<open>A float that is a real number between 0 and 1.\<close>

fun unit_interval :: "npfloat \<Rightarrow> bool" where
  "unit_interval (Fin a) = (0 \<le> a \<and> a \<le> 1)"
| "unit_interval _ = False"

text \<open>
  The experts are binary classifiers: in confidence mode every forest has at least one tree
  and every tree predicts, for each sample, a class index, 0 or 1 (or a number between);
  otherwise \<^verbatim>\<open>predict_proba\<close> returns one row per sample, of at least two entries, and the
  probability of the positive class is between 0 and 1.
\<close>

definition binary_experts :: "('x, 'y, 'p, 'e, 'r) collaborators \<Rightarrow> 'p config \<Rightarrow> ('e, 'r) msrf \<Rightarrow> 'x list \<Rightarrow> bool" where
  "binary_experts env cfg self X =
     (if mode cfg = ''confidence'' then
        (\<forall>e\<in>set (experts self). tree_predictions env e X \<noteq> [] \<and>
           (\<forall>p\<in>set (tree_predictions env e X). length p = length X \<and> (\<forall>x\<in>set p. unit_interval x)))
      else
        (\<forall>e\<in>set (experts self). length (rf_predict_proba env e X) = length X \<and>
           (\<forall>row\<in>set (rf_predict_proba env e X). 1 < length row \<and> unit_interval (row ! 1))))"

section \<open>The forward recursion, as the specification words it\<close>

text \<open>
  Row \<open>t\<close> of \<open>log_alpha\<close> as the specification gives it: \<open>log_alpha[0] = log_start + log_B[0]\<close>
  and \<open>log_alpha[t, j] = logsumexp_i (log_alpha[t-1, i] + log_trans[i, j]) + log_B[t, j]\<close>.
\<close>

fun spec_log_alpha :: "nat \<Rightarrow> vec \<Rightarrow> mat \<Rightarrow> mat \<Rightarrow> nat \<Rightarrow> vec" where
  "spec_log_alpha K log_start log_trans log_B 0 = vadd log_start (log_B ! 0)"
| "spec_log_alpha K log_start log_trans log_B (Suc t) =
     map (\<lambda>j. fadd (logsumexp (map (\<lambda>i. fadd (spec_log_alpha K log_start log_trans log_B t ! i)
                                            (log_trans ! i ! j)) [0..<K]))
                    (log_B ! Suc t ! j)) [0..<K]"

text \<open>
  The two logarithms \<^verbatim>\<open>_forward_backward\<close> takes on entry, the slice \<open>log_B\<close> of chain \<open>c\<close>
  and the array \<open>log_alpha\<close> that the forward pass computes for it.
\<close>

definition log_start_of :: "('e, 'r) msrf \<Rightarrow> vec" where
  "log_start_of self = map (\<lambda>p. flog (fadd p eps10)) (startprob self)"

definition log_trans_of :: "('e, 'r) msrf \<Rightarrow> mat" where
  "log_trans_of self = map (map (\<lambda>p. flog (fadd p eps10))) (transmat self)"

definition chain_log_B :: "mat \<Rightarrow> nat list \<Rightarrow> nat \<Rightarrow> mat" where
  "chain_log_B log_emissions lengths c =
     take (lengths ! c) (drop (sum_list (take c lengths)) log_emissions)"

definition chain_log_alpha :: "'p config \<Rightarrow> ('e, 'r) msrf \<Rightarrow> mat \<Rightarrow> nat list \<Rightarrow> nat \<Rightarrow> mat" where
  "chain_log_alpha cfg self log_emissions lengths c =
     forward_pass (n_states cfg) (log_start_of self) (log_trans_of self)
       (chain_log_B log_emissions lengths c) (lengths ! c)"

text \<open>Vectors and matrices of real numbers of a given shape, and a row of sum 1.\<close>

definition finite_vec :: "nat \<Rightarrow> vec \<Rightarrow> bool" where
  "finite_vec K v = (length v = K \<and> (\<forall>x\<in>set v. is_fin x))"

definition finite_matrix :: "nat \<Rightarrow> nat \<Rightarrow> mat \<Rightarrow> bool" where
  "finite_matrix L K M = (length M = L \<and> (\<forall>row\<in>set M. finite_vec K row))"

definition nonneg_vec :: "nat \<Rightarrow> vec \<Rightarrow> bool" where
  "nonneg_vec K v = (length v = K \<and> (\<forall>p\<in>set v. nonneg p))"

definition posterior_row :: "nat \<Rightarrow> vec \<Rightarrow> bool" where
  "posterior_row K row = (length row = K \<and> fsum row = Fin 1)"

section \<open>The scoring mode\<close>

lemma score_loop_not_value_error:
  "(\<And>k e. f k e \<noteq> Inl (ValueError msg)) \<Longrightarrow> score_loop f K scores xs \<noteq> Inl (ValueError msg)"
  by (induction f K scores xs rule: score_loop.induct) (auto split: sum.splits)

lemma confidence_score_not_value_error: "confidence_score env X k e \<noteq> Inl (ValueError msg)"
  by (simp add: confidence_score_def Let_def)

lemma risk_score_not_value_error: "risk_score env K X k e \<noteq> Inl (ValueError msg)"
  by (simp add: risk_score_def positive_column_def Let_def split: sum.splits)

text \<open>
  Claim C7. With a mode string that is neither \<^verbatim>\<open>confidence\<close> nor \<^verbatim>\<open>risk\<close>,
  \<^verbatim>\<open>_get_expert_confidence\<close> raises the \<^verbatim>\<open>ValueError\<close> "Unknown mode" for every feature matrix
  and every expert set: no score matrix is returned and no other mode is used in its place.
  With one of the two known modes it raises no \<^verbatim>\<open>ValueError\<close> at all.
\<close>

theorem unknown_mode_is_value_error:
  "(mode cfg \<noteq> ''confidence'' \<and> mode cfg \<noteq> ''risk'' \<longrightarrow>
      get_expert_confidence env cfg self X = Inl (ValueError (''Unknown mode: '' @ mode cfg)))
   \<and> (mode cfg = ''confidence'' \<or> mode cfg = ''risk'' \<longrightarrow>
      (\<forall>msg. get_expert_confidence env cfg self X \<noteq> Inl (ValueError msg)))"
  by (auto simp: get_expert_confidence_def Let_def split: sum.splits
      dest!: score_loop_not_value_error [OF confidence_score_not_value_error, THEN notE, rotated]
             score_loop_not_value_error [OF risk_score_not_value_error, THEN notE, rotated])

theorem unknown_mode_witness:
  "get_expert_confidence (stub_env [0] [[Fin 0]] [[Fin 1, Fin 0]]) (stub_cfg 1 1 ''fast'')
      (fresh\<lparr>experts := [0]\<rparr>) [0] = Inl (ValueError ''Unknown mode: fast'')
   \<and> get_expert_confidence (stub_env [0] [[Fin 0]] [[Fin 1, Fin 0]]) (stub_cfg 1 1 ''risk'')
      (fresh\<lparr>experts := [0]\<rparr>) [0] \<noteq> Inl (ValueError ''Unknown mode: risk'')"
  using unknown_mode_is_value_error
      [of "stub_cfg 1 1 ''fast''" "stub_env [0] [[Fin 0]] [[Fin 1, Fin 0]]" "fresh\<lparr>experts := [0]\<rparr>" "[0]"]
    unknown_mode_is_value_error
      [of "stub_cfg 1 1 ''risk''" "stub_env [0] [[Fin 0]] [[Fin 1, Fin 0]]" "fresh\<lparr>experts := [0]\<rparr>" "[0]"]
  by (simp add: stub_cfg_def)

section \<open>Evaluating the model on concrete inputs\<close>

lemmas eval_defs =
  get_expert_confidence_def stub_env_def stub_rows_def stub_cfg_def fresh_def zeros2_def zeros_def
  confidence_score_def risk_score_def column_def np_var_def fsum_def fsub_def eps5_def eps10_def
  set_col_def normalize_rows_def log_floor_def Let_def forward_backward_def forward_pass_def
  backward_pass_def normalize_log_rows_def accumulate_xi_def log_xi_matrix_def logsumexp_def
  vadd_def madd_def set2_def linspace01_def init_params_def count_transitions_def bincount_def
  row_normalize_def fgt_def positive_column_def eval_nat_numeral upt_conv_Cons nth_Cons'

section \<open>The chain lengths\<close>










section \<open>What an EM iteration leaves alone\<close>

lemma flt_asym: "flt x y \<Longrightarrow> \<not> flt y x"
  by (cases x; cases y) auto

lemma refit_experts_frame:
  "refit_experts env X y gamma ks (es, g) = Inr (es', g') \<Longrightarrow>
     length es' = length es \<and>
     (\<forall>k. k \<notin> set ks \<or> \<not> fgt (fsum (column k gamma)) eps5 \<longrightarrow> es' ! k = es ! k)"
proof (induction ks arbitrary: es g)
  case Nil
  then show ?case by simp
next
  case (Cons k ks)
  show ?case
  proof (cases "fgt (fsum (column k gamma)) eps5")
    case False
    with Cons.prems have "refit_experts env X y gamma ks (es, g) = Inr (es', g')"
      by (simp add: Let_def)
    from Cons.IH [OF this] False show ?thesis by auto
  next
    case True
    with Cons.prems have k: "k < length es"
      by (auto simp: Let_def split: if_splits)
    obtain e1 g1 where fit1: "rf_fit env g (es ! k) X y (Some (column k gamma)) = (e1, g1)"
      by (cases "rf_fit env g (es ! k) X y (Some (column k gamma))") auto
    with Cons.prems True k have "refit_experts env X y gamma ks (es[k := e1], g1) = Inr (es', g')"
      by (simp add: Let_def)
    from Cons.IH [OF this] True k show ?thesis by (auto simp: nth_list_update)
  qed
qed

lemma em_iteration_Converged:
  "em_iteration env cfg X y lengths i (self, prev) = Inr (Converged s') \<Longrightarrow>
     1 < i \<and> (\<exists>conf gamma xi_sum ll.
        get_expert_confidence env cfg self X = Inr conf \<and>
        forward_backward cfg self (log_floor conf) lengths = Inr (gamma, xi_sum, ll) \<and>
        flt (fabs (fsub ll prev)) (tol cfg) \<and>
        s' = self\<lparr>monitor := monitor self @ [ll]\<rparr>)"
  by (auto simp: em_iteration_def Let_def split: sum.splits if_splits prod.splits)

lemma em_iteration_Continue:
  "em_iteration env cfg X y lengths i (self, prev) = Inr (Continue s' p) \<Longrightarrow>
     (\<exists>conf gamma xi_sum es g.
        get_expert_confidence env cfg self X = Inr conf \<and>
        forward_backward cfg self (log_floor conf) lengths = Inr (gamma, xi_sum, p) \<and>
        \<not> (1 < i \<and> flt (fabs (fsub p prev)) (tol cfg)) \<and>
        refit_experts env X y gamma [0..<n_states cfg] (experts self, rng self) = Inr (es, g) \<and>
        s' = self\<lparr>monitor := monitor self @ [p], transmat := row_normalize xi_sum,
                 experts := es, rng := g\<rparr>)"
  by (auto simp: em_iteration_def Let_def split: sum.splits if_splits prod.splits)

lemma em_iteration_startprob:
  "em_iteration env cfg X y lengths i st = Inr out \<Longrightarrow>
     startprob (outcome_state out) = startprob (fst st)"
  by (cases st; cases out)
     (auto dest!: em_iteration_Converged em_iteration_Continue)

lemma em_loop_startprob:
  "em_loop env cfg X y lengths i n st = Inr self' \<Longrightarrow> startprob self' = startprob (fst st)"
proof (induction n arbitrary: i st)
  case 0
  then show ?case by auto
next
  case (Suc n)
  then show ?case
    by (auto split: sum.splits outcome.splits dest!: em_iteration_startprob)
qed

text \<open>
  Claim C6. \<^verbatim>\<open>startprob_\<close> is assigned by \<^verbatim>\<open>_init_params\<close> only: no pass through the EM loop
  changes it, whether the pass ends in the \<^verbatim>\<open>break\<close> or in the M-step, and when \<^verbatim>\<open>fit\<close> returns
  the vector is the one the initialisation computed.
\<close>

theorem startprob_fixed_after_init:
  "(\<forall>i st out. em_iteration env cfg X_flat y_flat lengths i st = Inr out \<longrightarrow>
       startprob (outcome_state out) = startprob (fst st))
   \<and> (fit env cfg self Xy_input = Inr self' \<longrightarrow>
       fit_args Xy_input = Inr (X_flat, y_flat, lengths) \<longrightarrow>
       startprob self' = startprob (init_params env cfg self X_flat y_flat))"
  by (auto simp: fit_def Let_def em_iteration_startprob dest!: em_loop_startprob)

theorem startprob_fixed_witness:
  "em_iteration (stub_rows [0, 0] [[Fin 0, Fin 0]] []) (stub_cfg 1 5 ''confidence'') [[0], [1]] [1, 0] [2] 0
      (init_params (stub_rows [0, 0] [[Fin 0, Fin 0]] []) (stub_cfg 1 5 ''confidence'') fresh [[0], [1]] [1, 0],
       NInf)
     = Inr (Continue
         \<lparr>experts = [2], startprob = [Fin 1], transmat = [[Fin 1]],
          monitor = [Fin (2 * ln (10000000001000000000000001 / 10000000000000010000000000)
                          + (ln (10000000001 / 10000000000)
                             + ln (100000000010000000001 / 100000000010000000000)))],
          rng = ()\<rparr>
         (Fin (2 * ln (10000000001000000000000001 / 10000000000000010000000000)
               + (ln (10000000001 / 10000000000)
                  + ln (100000000010000000001 / 100000000010000000000)))))
   \<and> fit (stub_rows [0, 0] [[Fin 0, Fin 0]] []) (stub_cfg 1 5 ''confidence'') fresh
        (Labelled_Array [[0], [1]] [1, 0])
     = Inr \<lparr>experts = [3], startprob = [Fin 1], transmat = [[Fin 1]],
            monitor =
              [Fin (2 * ln (10000000001000000000000001 / 10000000000000010000000000)
                    + (ln (10000000001 / 10000000000)
                       + ln (100000000010000000001 / 100000000010000000000))),
               Fin (2 * ln (10000000001000000000000001 / 10000000000000010000000000)
                    + 2 * ln (10000000001 / 10000000000)),
               Fin (2 * ln (10000000001000000000000001 / 10000000000000010000000000)
                    + 2 * ln (10000000001 / 10000000000))],
            rng = ()\<rparr>
   \<and> fit_args (Labelled_Array [[0], [1::nat]] [1, 0::nat]) = Inr ([[0], [1]], [1, 0], [2])
   \<and> startprob (init_params (stub_rows [0, 0] [[Fin 0, Fin 0]] []) (stub_cfg 1 5 ''confidence'') fresh
        [[0], [1]] [1, 0]) = [Fin 1]"
  using startprob_fixed_after_init
      [of "stub_rows [0, 0] [[Fin 0, Fin 0]] []" "stub_cfg 1 5 ''confidence''" "[[0], [1]]" "[1, 0]" "[2]"
        fresh "Labelled_Array [[0], [1]] [1, 0]"]
  by (simp add: eval_defs fit_def em_iteration_def)

lemma em_passes_monitor:
  "em_passes env cfg X y lengths i k st = Some (s, prev) \<Longrightarrow>
     length (monitor s) = length (monitor (fst st)) + k"
proof (induction k arbitrary: i st)
  case 0
  then show ?case by simp
next
  case (Suc k)
  obtain self0 prev0 where st: "st = (self0, prev0)" by (cases st)
  from Suc.prems obtain s1 p1 where
    it: "em_iteration env cfg X y lengths i (self0, prev0) = Inr (Continue s1 p1)"
    and rest: "em_passes env cfg X y lengths (Suc i) k (s1, p1) = Some (s, prev)"
    by (auto simp: st split: sum.splits outcome.splits)
  from em_iteration_Continue [OF it] have "length (monitor s1) = Suc (length (monitor self0))"
    by auto
  with Suc.IH [OF rest] show ?case by (simp add: st)
qed

lemma em_loop_passes:
  "em_loop env cfg X y lengths i n st = Inr self' \<Longrightarrow>
     \<exists>k s prev. k \<le> n \<and> em_passes env cfg X y lengths i k st = Some (s, prev) \<and>
        (k = n \<and> self' = s
         \<or> k < n \<and> em_iteration env cfg X y lengths (i + k) (s, prev) = Inr (Converged self'))"
proof (induction n arbitrary: i st)
  case 0
  then have "em_passes env cfg X y lengths i 0 st = Some (fst st, snd st)" "self' = fst st"
    by auto
  then show ?case by blast
next
  case (Suc n)
  show ?case
  proof (cases "em_iteration env cfg X y lengths i st")
    case (Inl e)
    with Suc.prems show ?thesis by simp
  next
    case (Inr out)
    show ?thesis
    proof (cases out)
      case (Converged s1)
      with Inr Suc.prems have "self' = s1" by simp
      with Inr Converged
      have "em_passes env cfg X y lengths i 0 st = Some (fst st, snd st)"
        "em_iteration env cfg X y lengths (i + 0) (fst st, snd st) = Inr (Converged self')"
        by simp_all
      then show ?thesis by blast
    next
      case (Continue s1 p1)
      with Inr Suc.prems have "em_loop env cfg X y lengths (Suc i) n (s1, p1) = Inr self'"
        by simp
      from Suc.IH [OF this] obtain k s prev where k: "k \<le> n"
        and p: "em_passes env cfg X y lengths (Suc i) k (s1, p1) = Some (s, prev)"
        and d: "k = n \<and> self' = s
           \<or> k < n \<and> em_iteration env cfg X y lengths (Suc i + k) (s, prev) = Inr (Converged self')"
        by blast
      from p Inr Continue have "em_passes env cfg X y lengths i (Suc k) st = Some (s, prev)"
        by simp
      moreover from d have "Suc k = Suc n \<and> self' = s
           \<or> Suc k < Suc n \<and> em_iteration env cfg X y lengths (i + Suc k) (s, prev) = Inr (Converged self')"
        by simp
      moreover from k have "Suc k \<le> Suc n" by simp
      ultimately show ?thesis by blast
    qed
  qed
qed

lemma em_passes_break:
  "em_passes env cfg X y lengths i k st = Some (s, prev) \<Longrightarrow> k < n \<Longrightarrow>
   em_iteration env cfg X y lengths (i + k) (s, prev) = Inr (Converged s') \<Longrightarrow>
   em_loop env cfg X y lengths i n st = Inr s'"
proof (induction k arbitrary: i st n)
  case 0
  then obtain m where "n = Suc m" by (cases n) auto
  with 0 show ?case by simp
next
  case (Suc k)
  from Suc.prems(2) obtain m where n: "n = Suc m" and km: "k < m" by (cases n) auto
  from Suc.prems(1) obtain s1 p1 where
    it: "em_iteration env cfg X y lengths i st = Inr (Continue s1 p1)"
    and rest: "em_passes env cfg X y lengths (Suc i) k (s1, p1) = Some (s, prev)"
    by (auto split: sum.splits outcome.splits)
  from Suc.prems(3) have "em_iteration env cfg X y lengths (Suc i + k) (s, prev) = Inr (Converged s')"
    by simp
  from Suc.IH [OF rest km this] it show ?case by (simp add: n)
qed

text \<open>
  Claim C3. When \<^verbatim>\<open>fit\<close> returns, its loop has completed some number \<open>k\<close> of iterations,
  M-step included, one entry of \<^verbatim>\<open>monitor_\<close> each, and either these are all \<open>n_iter\<close> of them, or
  the loop took the \<^verbatim>\<open>break\<close> in the next one: then \<open>k\<close> is at least 2, the test
  \<^verbatim>\<open>abs(delta) < self.tol\<close> held for the log-likelihood of that iteration and the one before,
  and the object returned is the one the \<open>k\<close> iterations left, with the log-likelihood
  appended to \<^verbatim>\<open>monitor_\<close> and nothing else changed: \<^verbatim>\<open>transmat_\<close> and the experts are those
  of the end of the previous iteration. Conversely, whenever the test holds after at least
  two completed iterations, \<^verbatim>\<open>fit\<close> returns at once with that object; and after fewer than two
  completed iterations the \<^verbatim>\<open>break\<close> is never taken, whatever the log-likelihoods.
\<close>

theorem converged_skips_m_step:
  assumes args: "fit_args Xy_input = Inr (X_flat, y_flat, lengths)"
    and st0: "st0 = ((init_params env cfg self X_flat y_flat)\<lparr>monitor := []\<rparr>, NInf)"
  shows "(fit env cfg self Xy_input = Inr self' \<longrightarrow>
       (\<exists>k s prev. k \<le> n_iter cfg
          \<and> em_passes env cfg X_flat y_flat lengths 0 k st0 = Some (s, prev)
          \<and> length (monitor s) = k
          \<and> (k = n_iter cfg \<and> self' = s
             \<or> 2 \<le> k \<and> k < n_iter cfg
               \<and> (\<exists>ll. flt (fabs (fsub ll prev)) (tol cfg)
                     \<and> self' = s\<lparr>monitor := monitor s @ [ll]\<rparr>)
               \<and> transmat self' = transmat s \<and> experts self' = experts s)))
   \<and> (\<forall>k s prev conf gamma xi_sum ll.
         em_passes env cfg X_flat y_flat lengths 0 k st0 = Some (s, prev) \<longrightarrow>
         k < n_iter cfg \<longrightarrow>
         get_expert_confidence env cfg s X_flat = Inr conf \<longrightarrow>
         forward_backward cfg s (log_floor conf) lengths = Inr (gamma, xi_sum, ll) \<longrightarrow>
           (2 \<le> k \<and> flt (fabs (fsub ll prev)) (tol cfg) \<longrightarrow>
              fit env cfg self Xy_input = Inr (s\<lparr>monitor := monitor s @ [ll]\<rparr>))
           \<and> (k < 2 \<longrightarrow>
                (\<forall>s'. em_iteration env cfg X_flat y_flat lengths k (s, prev) \<noteq> Inr (Converged s'))))"
proof -
  from args st0 have fit: "fit env cfg self Xy_input = em_loop env cfg X_flat y_flat lengths 0 (n_iter cfg) st0"
    by (simp add: fit_def Let_def)
  have A: "\<exists>k s prev. k \<le> n_iter cfg
          \<and> em_passes env cfg X_flat y_flat lengths 0 k st0 = Some (s, prev)
          \<and> length (monitor s) = k
          \<and> (k = n_iter cfg \<and> self' = s
             \<or> 2 \<le> k \<and> k < n_iter cfg
               \<and> (\<exists>ll. flt (fabs (fsub ll prev)) (tol cfg)
                     \<and> self' = s\<lparr>monitor := monitor s @ [ll]\<rparr>)
               \<and> transmat self' = transmat s \<and> experts self' = experts s)"
    if r: "fit env cfg self Xy_input = Inr self'"
  proof -
    from r fit have "em_loop env cfg X_flat y_flat lengths 0 (n_iter cfg) st0 = Inr self'" by simp
    from em_loop_passes [OF this] obtain k s prev where k: "k \<le> n_iter cfg"
      and p: "em_passes env cfg X_flat y_flat lengths 0 k st0 = Some (s, prev)"
      and d: "k = n_iter cfg \<and> self' = s
         \<or> k < n_iter cfg \<and> em_iteration env cfg X_flat y_flat lengths (0 + k) (s, prev) = Inr (Converged self')"
      by blast
    from em_passes_monitor [OF p] have len: "length (monitor s) = k" by (simp add: st0)
    from d have "k = n_iter cfg \<and> self' = s
             \<or> 2 \<le> k \<and> k < n_iter cfg
               \<and> (\<exists>ll. flt (fabs (fsub ll prev)) (tol cfg)
                     \<and> self' = s\<lparr>monitor := monitor s @ [ll]\<rparr>)
               \<and> transmat self' = transmat s \<and> experts self' = experts s"
    proof
      assume "k = n_iter cfg \<and> self' = s"
      then show ?thesis by simp
    next
      assume c: "k < n_iter cfg \<and> em_iteration env cfg X_flat y_flat lengths (0 + k) (s, prev) = Inr (Converged self')"
      then have "em_iteration env cfg X_flat y_flat lengths k (s, prev) = Inr (Converged self')" by simp
      from em_iteration_Converged [OF this] obtain ll where "1 < k"
        "flt (fabs (fsub ll prev)) (tol cfg)" "self' = s\<lparr>monitor := monitor s @ [ll]\<rparr>"
        by blast
      with c show ?thesis by auto
    qed
    with k p len show ?thesis by blast
  qed
  have B: "(2 \<le> k \<and> flt (fabs (fsub ll prev)) (tol cfg) \<longrightarrow>
              fit env cfg self Xy_input = Inr (s\<lparr>monitor := monitor s @ [ll]\<rparr>))
           \<and> (k < 2 \<longrightarrow>
                (\<forall>s'. em_iteration env cfg X_flat y_flat lengths k (s, prev) \<noteq> Inr (Converged s')))"
    if p: "em_passes env cfg X_flat y_flat lengths 0 k st0 = Some (s, prev)"
      and k: "k < n_iter cfg"
      and c: "get_expert_confidence env cfg s X_flat = Inr conf"
      and fb: "forward_backward cfg s (log_floor conf) lengths = Inr (gamma, xi_sum, ll)"
    for k s prev conf gamma xi_sum ll
  proof (intro conjI impI allI)
    assume t: "2 \<le> k \<and> flt (fabs (fsub ll prev)) (tol cfg)"
    with c fb have "em_iteration env cfg X_flat y_flat lengths (0 + k) (s, prev)
        = Inr (Converged (s\<lparr>monitor := monitor s @ [ll]\<rparr>))"
      by (simp add: em_iteration_def Let_def)
    from em_passes_break [OF p k this] fit
    show "fit env cfg self Xy_input = Inr (s\<lparr>monitor := monitor s @ [ll]\<rparr>)" by simp
  next
    fix s' assume "k < 2"
    then show "em_iteration env cfg X_flat y_flat lengths k (s, prev) \<noteq> Inr (Converged s')"
      by (auto dest!: em_iteration_Converged)
  qed
  from A B show ?thesis by blast
qed

theorem converged_witness:
  "fit_args (Labelled_Array [[0], [1::nat]] [1, 0::nat]) = Inr ([[0], [1]], [1, 0], [2])
   \<and> fit (stub_rows [0, 0] [[Fin 0, Fin 0]] []) (stub_cfg 1 5 ''confidence'') fresh
        (Labelled_Array [[0], [1]] [1, 0])
     = Inr \<lparr>experts = [3], startprob = [Fin 1], transmat = [[Fin 1]],
            monitor =
              [Fin (2 * ln (10000000001000000000000001 / 10000000000000010000000000)
                    + (ln (10000000001 / 10000000000)
                       + ln (100000000010000000001 / 100000000010000000000))),
               Fin (2 * ln (10000000001000000000000001 / 10000000000000010000000000)
                    + 2 * ln (10000000001 / 10000000000)),
               Fin (2 * ln (10000000001000000000000001 / 10000000000000010000000000)
                    + 2 * ln (10000000001 / 10000000000))],
            rng = ()\<rparr>
   \<and> em_passes (stub_rows [0, 0] [[Fin 0, Fin 0]] []) (stub_cfg 1 5 ''confidence'')
        [[0], [1]] [1, 0] [2] 0 2
        ((init_params (stub_rows [0, 0] [[Fin 0, Fin 0]] []) (stub_cfg 1 5 ''confidence'') fresh
            [[0], [1]] [1, 0])\<lparr>monitor := []\<rparr>, NInf)
     = Some (\<lparr>experts = [3], startprob = [Fin 1], transmat = [[Fin 1]],
              monitor =
                [Fin (2 * ln (10000000001000000000000001 / 10000000000000010000000000)
                      + (ln (10000000001 / 10000000000)
                         + ln (100000000010000000001 / 100000000010000000000))),
                 Fin (2 * ln (10000000001000000000000001 / 10000000000000010000000000)
                      + 2 * ln (10000000001 / 10000000000))],
              rng = ()\<rparr>,
             Fin (2 * ln (10000000001000000000000001 / 10000000000000010000000000)
                  + 2 * ln (10000000001 / 10000000000)))
   \<and> (\<exists>k s prev. k \<le> n_iter (stub_cfg 1 5 ''confidence'')
          \<and> em_passes (stub_rows [0, 0] [[Fin 0, Fin 0]] []) (stub_cfg 1 5 ''confidence'')
               [[0], [1]] [1, 0] [2] 0 k
               ((init_params (stub_rows [0, 0] [[Fin 0, Fin 0]] []) (stub_cfg 1 5 ''confidence'')
                   fresh [[0], [1]] [1, 0])\<lparr>monitor := []\<rparr>, NInf)
             = Some (s, prev)
          \<and> length (monitor s) = k \<and> 2 \<le> k \<and> transmat s = [[Fin 1]] \<and> experts s = [3])"
proof -
  let ?env = "stub_rows [0, 0] [[Fin 0, Fin 0]] []"
  let ?cfg = "stub_cfg 1 5 ''confidence''"
  let ?l0 = "Fin (2 * ln (10000000001000000000000001 / 10000000000000010000000000)
                    + (ln (10000000001 / 10000000000)
                       + ln (100000000010000000001 / 100000000010000000000)))"
  let ?l1 = "Fin (2 * ln (10000000001000000000000001 / 10000000000000010000000000)
                    + 2 * ln (10000000001 / 10000000000))"
  let ?self' = "\<lparr>experts = [3::nat], startprob = [Fin 1], transmat = [[Fin 1]],
                 monitor = [?l0, ?l1, ?l1], rng = ()\<rparr>"
  let ?st0 = "((init_params ?env ?cfg fresh [[0], [1]] [1, 0])\<lparr>monitor := []\<rparr>, NInf)"
  have a: "fit_args (Labelled_Array [[0], [1::nat]] [1, 0::nat]) = Inr ([[0], [1]], [1, 0], [2])"
    by simp
  have f: "fit ?env ?cfg fresh (Labelled_Array [[0], [1]] [1, 0]) = Inr ?self'"
    by (simp add: eval_defs fit_def em_iteration_def)
  have p: "em_passes ?env ?cfg [[0], [1]] [1, 0] [2] 0 2 ?st0
     = Some (\<lparr>experts = [3], startprob = [Fin 1], transmat = [[Fin 1]],
              monitor = [?l0, ?l1], rng = ()\<rparr>, ?l1)"
    by (simp add: eval_defs em_iteration_def)
  have n: "n_iter ?cfg = 5" by (simp add: stub_cfg_def)
  from converged_skips_m_step [OF a refl, of ?env ?cfg fresh ?self'] f
  obtain k s prev where k: "k \<le> n_iter ?cfg"
    and ps: "em_passes ?env ?cfg [[0], [1]] [1, 0] [2] 0 k ?st0 = Some (s, prev)"
    and len: "length (monitor s) = k"
    and d: "k = n_iter ?cfg \<and> ?self' = s
             \<or> 2 \<le> k \<and> k < n_iter ?cfg
               \<and> (\<exists>ll. flt (fabs (fsub ll prev)) (tol ?cfg)
                     \<and> ?self' = s\<lparr>monitor := monitor s @ [ll]\<rparr>)
               \<and> transmat ?self' = transmat s \<and> experts ?self' = experts s"
    by blast
  from d len n have "2 \<le> k \<and> transmat s = [[Fin 1]] \<and> experts s = [3]"
    by auto
  with k ps len a f p show ?thesis by blast
qed

text \<open>
  Claim C5. In a pass of the EM loop, an expert whose weight column \<^verbatim>\<open>gamma[:, k]\<close> sums below
  \<^verbatim>\<open>1e-5\<close> is not refit: it is the same after the pass as before.
\<close>

theorem starved_expert_not_refit:
  "em_iteration env cfg X_flat y_flat lengths i (self, prev) = Inr out \<Longrightarrow>
   get_expert_confidence env cfg self X_flat = Inr conf \<Longrightarrow>
   forward_backward cfg self (log_floor conf) lengths = Inr (gamma, xi_sum, ll) \<Longrightarrow>
   flt (fsum (column k gamma)) eps5 \<Longrightarrow>
   experts (outcome_state out) ! k = experts self ! k"
proof (cases out)
  case (Converged s')
  assume "em_iteration env cfg X_flat y_flat lengths i (self, prev) = Inr out"
  with Converged show ?thesis by (auto dest!: em_iteration_Converged)
next
  case (Continue s' p)
  assume a: "em_iteration env cfg X_flat y_flat lengths i (self, prev) = Inr out"
    "get_expert_confidence env cfg self X_flat = Inr conf"
    "forward_backward cfg self (log_floor conf) lengths = Inr (gamma, xi_sum, ll)"
    "flt (fsum (column k gamma)) eps5"
  from a(1) Continue obtain es g where
    r: "refit_experts env X_flat y_flat gamma [0..<n_states cfg] (experts self, rng self) = Inr (es, g)"
    and s': "experts s' = es"
    using a(2,3) by (auto dest!: em_iteration_Continue)
  from a(4) have "\<not> fgt (fsum (column k gamma)) eps5"
    by (simp add: fgt_def flt_asym)
  with refit_experts_frame [OF r] have "es ! k = experts self ! k" by blast
  with s' Continue show ?thesis by simp
qed

theorem starved_expert_witness:
  "em_iteration (stub_env [0] [[Fin 0]] []) (stub_cfg 2 1 ''confidence'') [0] [1] [1] 0
      (\<lparr>experts = [0, 0], startprob = [Fin 1, Fin 0],
        transmat = [[Fin 1, Fin 0], [Fin 0, Fin 1]], monitor = [], rng = ()\<rparr>, NInf)
     = Inr (Continue
         \<lparr>experts = [1, 0], startprob = [Fin 1, Fin 0], transmat = [[NaN, NaN], [NaN, NaN]],
          monitor = [Fin (ln (16666666673333333334000001666666667
                              / 33333333333333350000000000000000000))],
          rng = ()\<rparr>
         (Fin (ln (16666666673333333334000001666666667 / 33333333333333350000000000000000000))))
   \<and> flt (fsum (column 1 [[Fin (10000000001 / 10000000002), Fin (1 / 10000000002)]])) eps5
   \<and> [1, 0::nat] ! 1 = [0, 0] ! 1"
proof -
  let ?env = "stub_env [0] [[Fin 0]] []"
  let ?cfg = "stub_cfg 2 1 ''confidence''"
  let ?self = "\<lparr>experts = [0::nat, 0], startprob = [Fin 1, Fin 0],
                transmat = [[Fin 1, Fin 0], [Fin 0, Fin 1]], monitor = [], rng = ()\<rparr>"
  let ?ll = "Fin (ln (16666666673333333334000001666666667
                      / 33333333333333350000000000000000000))"
  let ?conf = "[[Fin (1000000000000000 / 2000000000000001),
                 Fin (1000000000000000 / 2000000000000001)]]"
  let ?gamma = "[[Fin (10000000001 / 10000000002), Fin (1 / 10000000002)]]"
  let ?out = "Continue (?self\<lparr>experts := [1, 0], transmat := [[NaN, NaN], [NaN, NaN]],
                               monitor := [?ll]\<rparr>) ?ll"
  have it: "em_iteration ?env ?cfg [0] [1] [1] 0 (?self, NInf) = Inr ?out"
    by (simp add: eval_defs em_iteration_def exp_add exp_diff exp_minus)
  have c: "get_expert_confidence ?env ?cfg ?self [0] = Inr ?conf"
    by (simp add: eval_defs)
  have fb: "forward_backward ?cfg ?self (log_floor ?conf) [1]
              = Inr (?gamma, [[Fin 0, Fin 0], [Fin 0, Fin 0]], ?ll)"
    by (simp add: eval_defs exp_add exp_diff exp_minus)
  have w: "flt (fsum (column 1 ?gamma)) eps5"
    by (simp add: eval_defs)
  from starved_expert_not_refit [OF it c fb w] it w show ?thesis
    by simp
qed

section \<open>The transition matrix after the M-step\<close>

lemma accumulate_xi_single_sample:
  "accumulate_xi K log_alpha log_trans log_B log_beta (Suc 0) xi_sum = xi_sum"
  by (simp add: accumulate_xi_def)

lemma forward_backward_chains_single_samples:
  "forward_backward_chains K log_start log_trans log_emissions (replicate n (Suc 0)) cursor
       (gamma, xi_sum, total_ll) = Inr (g, x, l) \<Longrightarrow> x = xi_sum"
proof (induction n arbitrary: cursor gamma total_ll)
  case 0
  then show ?case by simp
next
  case (Suc n)
  then show ?case
    by (auto simp: Let_def accumulate_xi_single_sample split: if_splits)
qed

lemma row_normalize_zeros: "row_normalize (zeros2 K K) = replicate K (replicate K NaN)"
proof -
  have "foldl fadd (Fin 0) (replicate n (Fin 0)) = Fin 0" for n
    by (induction n) auto
  then show ?thesis
    by (simp add: row_normalize_def zeros2_def zeros_def fsum_def map_replicate_const)
qed

text \<open>
  When every chain has one sample, \<^verbatim>\<open>xi_sum\<close> is still all zeros after the E-step and the
  M-step leaves NaN in every entry of the transition matrix.
\<close>

lemma single_sample_chains_give_nan:
  assumes "em_iteration env cfg X_flat y_flat (replicate n 1) i (self, prev) = Inr (Continue self' ll)"
  shows "transmat self' = replicate (n_states cfg) (replicate (n_states cfg) NaN)"
proof -
  from em_iteration_Continue [OF assms] obtain conf gamma xi_sum where
    fb: "forward_backward cfg self (log_floor conf) (replicate n 1) = Inr (gamma, xi_sum, ll)"
    and t: "transmat self' = row_normalize xi_sum"
    by auto
  from fb have "xi_sum = zeros2 (n_states cfg) (n_states cfg)"
    by (auto simp: forward_backward_def Let_def dest!: forward_backward_chains_single_samples)
  with t show ?thesis by (simp add: row_normalize_zeros)
qed

text \<open>
  Claim C4. The M-step sets \<^verbatim>\<open>transmat_ = xi_sum / xi_sum.sum(axis=1, keepdims=True)\<close>, with
  no floor in the denominator. A chain of one sample adds nothing to \<^verbatim>\<open>xi_sum\<close>, so when every
  chain has one sample the division is \<open>0 / 0\<close> in every entry. Here \<^verbatim>\<open>fit\<close> runs one EM
  iteration with two regimes on two sequences of one sample each, clustered into the labels
  0 and 1: every entry of the transition matrix it leaves is NaN, so its rows are neither
  non-negative nor of sum 1.
\<close>

theorem transmat_nan_on_single_sample_chains:
  "fit (stub_rows [0, 1] [[Fin 0, Fin 0]] []) (stub_cfg 2 1 ''confidence'') fresh
       (Labelled_Sequences [Matrix [[0]], Matrix [[1]]] [[1], [0]])
     = Inr \<lparr>experts = [2, 2], startprob = [Fin (1 / 2), Fin (1 / 2)],
            transmat = [[NaN, NaN], [NaN, NaN]],
            monitor = [Fin (2 * ln (16666666673333333334000001666666667
                                    / 33333333333333350000000000000000000))],
            rng = ()\<rparr>
   \<and> map fsum [[NaN, NaN], [NaN, NaN]] = [NaN, NaN]"
  by (simp add: eval_defs fit_def em_iteration_def vstack_def same_width_def exp_add exp_diff
      exp_minus)

section \<open>The emission scores\<close>

lemma nonneg_Fin: "nonneg x \<Longrightarrow> x = Fin (the_fin x) \<and> 0 \<le> the_fin x"
  by (cases x) auto


lemma is_fin_Fin: "is_fin x \<Longrightarrow> x = Fin (the_fin x)"
  by (cases x) auto

lemma unit_interval_Fin: "unit_interval x \<Longrightarrow> x = Fin (the_fin x) \<and> 0 \<le> the_fin x \<and> the_fin x \<le> 1"
  by (cases x) auto

lemma unit_interval_is_fin: "unit_interval x \<Longrightarrow> is_fin x"
  by (cases x) auto

lemma foldl_fadd_Fin: "foldl fadd (Fin a) (map Fin rs) = Fin (a + sum_list rs)"
  by (induction rs arbitrary: a) (auto simp: add.assoc)

lemma fsum_Fin: "fsum (map Fin rs) = Fin (sum_list rs)"
  by (simp add: fsum_def foldl_fadd_Fin)

lemma fin_list_eq: "\<forall>x\<in>set xs. is_fin x \<Longrightarrow> xs = map Fin (map the_fin xs)"
  by (induction xs) (auto simp: is_fin_Fin)

lemma nonneg_list_eq: "\<forall>x\<in>set xs. nonneg x \<Longrightarrow> xs = map Fin (map the_fin xs) \<and> (\<forall>r\<in>set (map the_fin xs). 0 \<le> r)"
  by (induction xs) (auto dest: nonneg_Fin)

lemma sum_list_div: "sum_list (map (\<lambda>r. r / c) rs) = sum_list rs / (c::real)"
  by (induction rs) (auto simp: add_divide_distrib)

lemma sum_list_floor: "\<forall>r\<in>set rs. (0::real) \<le> r \<Longrightarrow> x \<in> set rs \<Longrightarrow> x \<le> sum_list rs"
proof (induction rs)
  case Nil
  then show ?case by simp
next
  case (Cons a rs)
  then have "0 \<le> sum_list rs" "0 \<le> a" by (simp_all add: sum_list_nonneg)
  with Cons show ?case by auto
qed

lemma sum_list_le_length: "\<forall>r\<in>set rs. r \<le> (1::real) \<Longrightarrow> sum_list rs \<le> real (length rs)"
  by (induction rs) auto

lemma normalize_row:
  assumes "\<forall>x\<in>set row. nonneg x" and "\<exists>x\<in>set row. lo \<le> the_fin x"
  shows "(\<forall>c\<in>set (map (\<lambda>s. fdiv s (fadd (fsum row) eps10)) row). nonneg c)
     \<and> (\<exists>S. 0 \<le> S \<and> lo \<le> S \<and> fsum row = Fin S
          \<and> fsum (map (\<lambda>s. fdiv s (fadd (fsum row) eps10)) row) = Fin (S / (S + 1 / 10 ^ 10)))"
proof -
  define rs where "rs = map the_fin row"
  from nonneg_list_eq [OF assms(1)] have row: "row = map Fin rs" and pos: "\<forall>r\<in>set rs. 0 \<le> r"
    by (simp_all add: rs_def)
  define S where "S = sum_list rs"
  have S: "0 \<le> S" unfolding S_def using pos by (simp add: sum_list_nonneg)
  from assms(2) obtain x where "x \<in> set row" "lo \<le> the_fin x" by blast
  then have "the_fin x \<in> set rs" by (simp add: rs_def)
  from sum_list_floor [OF pos this] \<open>lo \<le> the_fin x\<close> have lo: "lo \<le> S" by (simp add: S_def)
  have fs: "fsum row = Fin S" by (simp add: row fsum_Fin S_def)
  have d: "fadd (fsum row) eps10 = Fin (S + 1 / 10 ^ 10)" by (simp add: fs eps10_def)
  have ne: "S + 1 / 10 ^ 10 \<noteq> 0" using S by (smt (verit) divide_pos_pos zero_less_power)
  have m: "map (\<lambda>s. fdiv s (fadd (fsum row) eps10)) row = map Fin (map (\<lambda>r. r / (S + 1 / 10 ^ 10)) rs)"
    unfolding d using ne by (simp add: row)
  have "\<forall>c\<in>set (map (\<lambda>r. r / (S + 1 / 10 ^ 10)) rs). 0 \<le> c"
    using pos S by auto
  then have a: "\<forall>c\<in>set (map (\<lambda>s. fdiv s (fadd (fsum row) eps10)) row). nonneg c"
    unfolding m by auto
  have b: "fsum (map (\<lambda>s. fdiv s (fadd (fsum row) eps10)) row) = Fin (S / (S + 1 / 10 ^ 10))"
    unfolding m by (simp only: fsum_Fin sum_list_div S_def)
  from a b S lo fs show ?thesis by blast
qed

lemma nonneg_matrix_zeros: "nonneg_matrix N K (zeros2 N K)"
  by (auto simp: nonneg_matrix_def zeros2_def zeros_def)

lemma nonneg_matrix_set_col:
  assumes "nonneg_matrix N K M" "\<forall>n<N. nonneg (v ! n)"
  shows "nonneg_matrix N K (set_col M k v)"
proof -
  have "\<And>n x. n < N \<Longrightarrow> x \<in> set ((M ! n)[k := v ! n]) \<Longrightarrow> nonneg x"
  proof -
    fix n x assume n: "n < N" and x: "x \<in> set ((M ! n)[k := v ! n])"
    from x have "x = v ! n \<or> x \<in> set (M ! n)"
      using set_update_subset_insert [of "M ! n" k "v ! n"] by auto
    with assms n show "nonneg x"
      by (auto simp: nonneg_matrix_def)
  qed
  with assms show ?thesis
    by (auto simp: nonneg_matrix_def set_col_def)
qed

lemma set_col_floor:
  assumes "nonneg_matrix N K M" "k < K" "\<forall>n<N. lo \<le> the_fin (v ! n)"
  shows "\<forall>row\<in>set (set_col M k v). \<exists>x\<in>set row. lo \<le> the_fin x"
proof
  fix row assume "row \<in> set (set_col M k v)"
  then obtain n where n: "n < length M" and row: "row = (M ! n)[k := v ! n]"
    by (auto simp: set_col_def)
  from assms(1) n have "length (M ! n) = K" "n < N" by (auto simp: nonneg_matrix_def)
  with assms(2) have "v ! n \<in> set row" unfolding row by (simp add: set_update_memI)
  with assms(3) \<open>n < N\<close> show "\<exists>x\<in>set row. lo \<le> the_fin x" by blast
qed

lemma score_loop_matrix:
  assumes "nonneg_matrix N K scores"
    and "\<forall>(k, e)\<in>set xs. k < K \<and> (\<exists>v. f k e = Inr v \<and> (\<forall>n<N. nonneg (v ! n) \<and> lo \<le> the_fin (v ! n)))"
    and "xs = [] \<longrightarrow> (\<forall>row\<in>set scores. \<exists>x\<in>set row. lo \<le> the_fin x)"
  shows "\<exists>scores'. score_loop f K scores xs = Inr scores' \<and> nonneg_matrix N K scores'
     \<and> (\<forall>row\<in>set scores'. \<exists>x\<in>set row. lo \<le> the_fin x)"
  using assms
proof (induction f K scores xs rule: score_loop.induct)
  case (1 f K scores)
  then show ?case by simp
next
  case (2 f K scores k expert rest)
  from "2.prems"(2) obtain v where k: "k < K" and fv: "f k expert = Inr v"
    and v: "\<forall>n<N. nonneg (v ! n)" and lo: "\<forall>n<N. lo \<le> the_fin (v ! n)"
    by auto
  from "2.prems"(1) v have nm: "nonneg_matrix N K (set_col scores k v)"
    by (rule nonneg_matrix_set_col)
  from set_col_floor [OF "2.prems"(1) k lo]
  have fl: "rest = [] \<longrightarrow> (\<forall>row\<in>set (set_col scores k v). \<exists>x\<in>set row. lo \<le> the_fin x)"
    by simp
  from "2.prems"(2) have rest: "\<forall>(k, e)\<in>set rest. k < K \<and> (\<exists>v. f k e = Inr v \<and> (\<forall>n<N. nonneg (v ! n) \<and> lo \<le> the_fin (v ! n)))"
    by simp
  from "2.IH" [OF fv k nm rest fl] fv k show ?case by simp
qed

lemma np_var_Fin:
  assumes "xs \<noteq> []" "xs = map Fin rs"
  shows "np_var xs = Fin (sum_list (map (\<lambda>r. (r - sum_list rs / real (length rs)) * (r - sum_list rs / real (length rs))) rs) / real (length rs))"
proof -
  from assms have len: "real (length rs) \<noteq> 0" by auto
  define m where "m = sum_list rs / real (length rs)"
  have mean: "fdiv (fsum xs) (Fin (real (length xs))) = Fin m"
    using len by (simp add: assms(2) fsum_Fin m_def)
  have dev: "map (\<lambda>x. fmul (fsub x (Fin m)) (fsub x (Fin m))) xs
               = map Fin (map (\<lambda>r. (r - m) * (r - m)) rs)"
    by (simp add: assms(2) fsub_def)
  have "np_var xs = fdiv (fsum (map Fin (map (\<lambda>r. (r - m) * (r - m)) rs))) (Fin (real (length xs)))"
    unfolding np_var_def Let_def mean dev ..
  also have "\<dots> = Fin (sum_list (map (\<lambda>r. (r - m) * (r - m)) rs) / real (length rs))"
    unfolding fsum_Fin using len by (simp add: assms(2))
  finally show ?thesis unfolding m_def .
qed

lemma np_var_nonneg:
  assumes "xs \<noteq> []" "\<forall>x\<in>set xs. is_fin x"
  shows "nonneg (np_var xs)"
proof -
  define rs where "rs = map the_fin xs"
  from fin_list_eq [OF assms(2)] have xs: "xs = map Fin rs" by (simp add: rs_def)
  have "0 \<le> sum_list (map (\<lambda>r. (r - sum_list rs / real (length rs)) * (r - sum_list rs / real (length rs))) rs)"
    by (rule sum_list_nonneg) auto
  then show ?thesis unfolding np_var_Fin [OF assms(1) xs] by simp
qed

lemma np_var_le_one:
  assumes "xs \<noteq> []" "\<forall>x\<in>set xs. unit_interval x"
  shows "the_fin (np_var xs) \<le> 1"
proof -
  define rs where "rs = map the_fin xs"
  from assms(2) have "\<forall>x\<in>set xs. is_fin x" by (simp add: unit_interval_is_fin)
  from fin_list_eq [OF this] have xs: "xs = map Fin rs" by (simp add: rs_def)
  from assms(2) have r: "\<forall>r\<in>set rs. 0 \<le> r \<and> r \<le> 1"
    by (auto simp: rs_def dest: unit_interval_Fin)
  from assms(1) xs have len: "0 < real (length rs)" by auto
  define m where "m = sum_list rs / real (length rs)"
  from r have "0 \<le> sum_list rs" "sum_list rs \<le> real (length rs)"
    by (simp_all add: sum_list_nonneg sum_list_le_length)
  with len have m: "0 \<le> m" "m \<le> 1" by (simp_all add: m_def)
  have "\<forall>d\<in>set (map (\<lambda>r. (r - m) * (r - m)) rs). d \<le> 1"
  proof
    fix d assume "d \<in> set (map (\<lambda>r. (r - m) * (r - m)) rs)"
    then obtain r where "r \<in> set rs" and d: "d = (r - m) * (r - m)" by auto
    with r m have "\<bar>r - m\<bar> \<le> 1" by auto
    then have "\<bar>r - m\<bar> * \<bar>r - m\<bar> \<le> 1 * 1" by (intro mult_mono) auto
    then show "d \<le> 1" by (simp add: d abs_mult_self_eq)
  qed
  from sum_list_le_length [OF this]
  have "sum_list (map (\<lambda>r. (r - m) * (r - m)) rs) \<le> real (length rs)" by simp
  with len have "sum_list (map (\<lambda>r. (r - m) * (r - m)) rs) / real (length rs) \<le> 1"
    by simp
  then show ?thesis unfolding np_var_Fin [OF assms(1) xs] m_def by simp
qed

lemma confidence_score_nth:
  "\<exists>v. confidence_score env X k expert = Inr v \<and>
     (\<forall>n<length X. v ! n = fdiv (Fin 1) (fadd (np_var (column n (tree_predictions env expert X))) eps5))"
  by (simp add: confidence_score_def Let_def)


lemma confidence_score_floor:
  assumes "tree_predictions env expert X \<noteq> []"
    and "\<forall>p\<in>set (tree_predictions env expert X). length p = length X \<and> (\<forall>x\<in>set p. unit_interval x)"
  shows "\<exists>v. confidence_score env X k expert = Inr v \<and>
     (\<forall>n<length X. nonneg (v ! n) \<and> 1 / 243 \<le> the_fin (v ! n))"
proof -
  have "nonneg (fdiv (Fin 1) (fadd (np_var (column n (tree_predictions env expert X))) eps5))
      \<and> 1 / 243 \<le> the_fin (fdiv (Fin 1) (fadd (np_var (column n (tree_predictions env expert X))) eps5))"
    if n: "n < length X" for n
  proof -
    let ?col = "column n (tree_predictions env expert X)"
    have ne: "?col \<noteq> []" using assms(1) by (simp add: column_def)
    have u: "\<forall>x\<in>set ?col. unit_interval x"
      using assms(2) n by (auto simp: column_def)
    then have "\<forall>x\<in>set ?col. is_fin x" by (simp add: unit_interval_is_fin)
    from np_var_nonneg [OF ne this] np_var_le_one [OF ne u]
    obtain v where v: "np_var ?col = Fin v" "0 \<le> v" "v \<le> 1"
      by (auto dest!: nonneg_Fin)
    have "1 / 243 \<le> 1 / (v + 1 / 10 ^ 5)"
      using v(2,3) by (intro divide_left_mono) auto
    with v show ?thesis
      by (auto simp: eps5_def add_nonneg_eq_0_iff)
  qed
  with confidence_score_nth [of env X k expert] show ?thesis
    by auto
qed

lemma linspace01_unit: "k < K \<Longrightarrow> unit_interval (linspace01 K ! k)"
  by (auto simp: linspace01_def divide_le_eq)

lemma risk_score_nth:
  assumes "length (rf_predict_proba env expert X) = length X"
    and "\<forall>row\<in>set (rf_predict_proba env expert X). 1 < length row"
  shows "\<exists>v. risk_score env K X k expert = Inr v \<and>
     (\<forall>n<length X. v ! n = fexp (fmul (fneg (fabs (fsub (rf_predict_proba env expert X ! n ! 1) (linspace01 K ! k)))) (Fin 5)))"
  using assms by (simp add: risk_score_def positive_column_def Let_def column_def)


lemma exp_minus_five: "1 / 243 \<le> exp (- (5::real))"
proof -
  have "exp (5::real) = exp 1 ^ 5" by (simp add: exp_of_nat_mult [symmetric, where 'a = real])
  also have "\<dots> \<le> 3 ^ 5" by (intro power_mono exp_le) simp
  finally have "exp (5::real) \<le> 243" by simp
  then have "1 / 243 \<le> 1 / exp (5::real)" by (intro divide_left_mono) auto
  then show ?thesis by (simp add: exp_minus inverse_eq_divide)
qed

lemma risk_score_floor:
  assumes "length (rf_predict_proba env expert X) = length X"
    and "\<forall>row\<in>set (rf_predict_proba env expert X). 1 < length row \<and> unit_interval (row ! 1)"
    and "k < K"
  shows "\<exists>v. risk_score env K X k expert = Inr v \<and>
     (\<forall>n<length X. nonneg (v ! n) \<and> 1 / 243 \<le> the_fin (v ! n))"
proof -
  from linspace01_unit [OF assms(3)] obtain q where q: "linspace01 K ! k = Fin q" "0 \<le> q" "q \<le> 1"
    by (auto dest: unit_interval_Fin)
  have "nonneg (fexp (fmul (fneg (fabs (fsub (rf_predict_proba env expert X ! n ! 1) (linspace01 K ! k)))) (Fin 5)))
     \<and> 1 / 243 \<le> the_fin (fexp (fmul (fneg (fabs (fsub (rf_predict_proba env expert X ! n ! 1) (linspace01 K ! k)))) (Fin 5)))"
    if n: "n < length X" for n
  proof -
    from assms(1,2) n have "unit_interval (rf_predict_proba env expert X ! n ! 1)"
      by (metis nth_mem)
    then obtain p where p: "rf_predict_proba env expert X ! n ! 1 = Fin p" "0 \<le> p" "p \<le> 1"
      by (auto dest: unit_interval_Fin)
    from p(2,3) q(2,3) have "- 5 \<le> - \<bar>p - q\<bar> * 5" by auto
    then have "exp (- 5) \<le> exp (- \<bar>p - q\<bar> * 5)" by (simp only: exp_le_cancel_iff)
    with exp_minus_five have "1 / 243 \<le> exp (- \<bar>p - q\<bar> * 5)" by (rule order_trans)
    then show ?thesis unfolding p q by (simp add: fsub_def)
  qed
  moreover from assms(2) have "\<forall>row\<in>set (rf_predict_proba env expert X). 1 < length row" by simp
  note risk_score_nth [OF assms(1) this, of K k]
  ultimately show ?thesis by auto
qed

lemma nonneg_matrix_normalize:
  assumes "nonneg_matrix N K M" and "\<forall>row\<in>set M. \<exists>x\<in>set row. lo \<le> the_fin x"
  shows "length (normalize_rows M) = N \<and>
     (\<forall>row\<in>set (normalize_rows M). length row = K \<and> (\<forall>c\<in>set row. nonneg c) \<and>
        (\<exists>S. 0 \<le> S \<and> lo \<le> S \<and> fsum row = Fin (S / (S + 1 / 10 ^ 10))))"
proof -
  have "\<And>r. r \<in> set M \<Longrightarrow>
      length (map (\<lambda>s. fdiv s (fadd (fsum r) eps10)) r) = K \<and>
      (\<forall>c\<in>set (map (\<lambda>s. fdiv s (fadd (fsum r) eps10)) r). nonneg c) \<and>
      (\<exists>S. 0 \<le> S \<and> lo \<le> S \<and> fsum (map (\<lambda>s. fdiv s (fadd (fsum r) eps10)) r) = Fin (S / (S + 1 / 10 ^ 10)))"
  proof -
    fix r assume r: "r \<in> set M"
    with assms have "length r = K" "\<forall>x\<in>set r. nonneg x" "\<exists>x\<in>set r. lo \<le> the_fin x"
      by (auto simp: nonneg_matrix_def)
    with normalize_row [of r lo] show "length (map (\<lambda>s. fdiv s (fadd (fsum r) eps10)) r) = K \<and>
      (\<forall>c\<in>set (map (\<lambda>s. fdiv s (fadd (fsum r) eps10)) r). nonneg c) \<and>
      (\<exists>S. 0 \<le> S \<and> lo \<le> S \<and> fsum (map (\<lambda>s. fdiv s (fadd (fsum r) eps10)) r) = Fin (S / (S + 1 / 10 ^ 10)))"
      by auto
  qed
  moreover have "length (normalize_rows M) = N"
    using assms by (simp add: normalize_rows_def nonneg_matrix_def)
  ultimately show ?thesis
    by (auto simp: normalize_rows_def)
qed

lemma get_expert_confidence_scores:
  assumes m: "mode cfg = ''confidence'' \<or> mode cfg = ''risk''"
    and ne: "experts self \<noteq> []"
    and le: "length (experts self) \<le> n_states cfg"
    and sc: "\<And>k e. k < n_states cfg \<Longrightarrow> e \<in> set (experts self) \<Longrightarrow>
       \<exists>v. (if mode cfg = ''confidence'' then confidence_score env X k e
            else risk_score env (n_states cfg) X k e) = Inr v
          \<and> (\<forall>n<length X. nonneg (v ! n) \<and> lo \<le> the_fin (v ! n))"
  shows "\<exists>conf. get_expert_confidence env cfg self X = Inr conf \<and> length conf = length X \<and>
     (\<forall>row\<in>set conf. length row = n_states cfg \<and> (\<forall>c\<in>set row. nonneg c) \<and>
        (\<exists>S. 0 \<le> S \<and> lo \<le> S \<and> fsum row = Fin (S / (S + 1 / 10 ^ 10))))"
proof -
  let ?N = "length X" and ?K = "n_states cfg"
  let ?f = "if mode cfg = ''confidence'' then confidence_score env X else risk_score env ?K X"
  have "\<forall>(k, e)\<in>set (enumerate 0 (experts self)).
          k < ?K \<and> (\<exists>v. ?f k e = Inr v \<and> (\<forall>n<?N. nonneg (v ! n) \<and> lo \<le> the_fin (v ! n)))"
  proof (clarify)
    fix k e assume ke: "(k, e) \<in> set (enumerate 0 (experts self))"
    then have k: "k < length (experts self)" and e: "e \<in> set (experts self)"
      by (auto simp: in_set_enumerate_eq)
    from k le have kK: "k < ?K" by simp
    from sc [OF kK e] kK
    show "k < ?K \<and> (\<exists>v. ?f k e = Inr v \<and> (\<forall>n<?N. nonneg (v ! n) \<and> lo \<le> the_fin (v ! n)))"
      by (auto split: if_splits)
  qed
  moreover from ne have "enumerate 0 (experts self) = [] \<longrightarrow>
      (\<forall>row\<in>set (zeros2 ?N ?K). \<exists>x\<in>set row. lo \<le> the_fin x)"
    by (cases "experts self") auto
  ultimately obtain scores' where
    s: "score_loop ?f ?K (zeros2 ?N ?K) (enumerate 0 (experts self)) = Inr scores'"
    and sm: "nonneg_matrix ?N ?K scores'"
    and fl: "\<forall>row\<in>set scores'. \<exists>x\<in>set row. lo \<le> the_fin x"
    using score_loop_matrix [OF nonneg_matrix_zeros, of "enumerate 0 (experts self)" ?K ?f ?N lo]
    by blast
  from s m have "get_expert_confidence env cfg self X = Inr (normalize_rows scores')"
    by (auto simp: get_expert_confidence_def Let_def)
  with nonneg_matrix_normalize [OF sm fl] show ?thesis by auto
qed


lemma floor_tolerance:
  assumes "1 / 243 \<le> (S::real)"
  shows "1 - 1 / 10 ^ 7 \<le> S / (S + 1 / 10 ^ 10) \<and> S / (S + 1 / 10 ^ 10) \<le> 1"
proof -
  from assms have pos: "0 < S + 1 / 10 ^ 10" by (smt (verit) divide_pos_pos zero_less_power zero_less_numeral zero_less_one)
  have "(1 - 1 / 10 ^ 7) * (S + 1 / 10 ^ 10) \<le> S"
    using assms by (simp add: algebra_simps)
  with pos have "1 - 1 / 10 ^ 7 \<le> S / (S + 1 / 10 ^ 10)"
    by (simp add: pos_le_divide_eq)
  moreover from pos have "S / (S + 1 / 10 ^ 10) \<le> 1"
    by (simp add: pos_divide_le_eq)
  ultimately show ?thesis by simp
qed

text \<open>
  Claim C8. In one of the two known modes, with the experts of the model (at least one, at
  most \<open>n_states\<close>) answering as binary classifiers do, \<^verbatim>\<open>_get_expert_confidence\<close> returns a
  matrix of \<open>N\<close> rows and \<open>n_states\<close> columns whose entries are non-negative real numbers, and
  each row sums to 1 up to the floor \<^verbatim>\<open>1e-10\<close> that the source adds to the denominator: the
  sum is \<open>S / (S + 1e-10)\<close> for the sum \<open>S\<close> of the raw scores of the row, every raw score is at
  least \<open>exp (-5)\<close>, so the sum of the row lies between \<open>1 - 1e-7\<close> and 1.
\<close>

theorem emission_rows_sum_to_one:
  assumes "mode cfg = ''confidence'' \<or> mode cfg = ''risk''"
    and "experts self \<noteq> []"
    and "length (experts self) \<le> n_states cfg"
    and "binary_experts env cfg self X"
  shows "\<exists>conf. get_expert_confidence env cfg self X = Inr conf \<and> length conf = length X \<and>
     (\<forall>row\<in>set conf. length row = n_states cfg \<and> (\<forall>c\<in>set row. nonneg c) \<and>
        (\<exists>s. fsum row = Fin s \<and> 1 - 1 / 10 ^ 7 \<le> s \<and> s \<le> 1))"
proof -
  have "\<exists>v. (if mode cfg = ''confidence'' then confidence_score env X k e
            else risk_score env (n_states cfg) X k e) = Inr v
          \<and> (\<forall>n<length X. nonneg (v ! n) \<and> 1 / 243 \<le> the_fin (v ! n))"
    if "k < n_states cfg" "e \<in> set (experts self)" for k e
  proof (cases "mode cfg = ''confidence''")
    case True
    with assms(4) that confidence_score_floor [of env e X k] show ?thesis
      by (simp add: binary_experts_def)
  next
    case False
    with assms(4) that risk_score_floor [of env e X k "n_states cfg"] show ?thesis
      by (simp add: binary_experts_def)
  qed
  from get_expert_confidence_scores [OF assms(1,2,3) this]
  obtain conf where c: "get_expert_confidence env cfg self X = Inr conf" "length conf = length X"
    and rows: "\<forall>row\<in>set conf. length row = n_states cfg \<and> (\<forall>c\<in>set row. nonneg c) \<and>
        (\<exists>S. 0 \<le> S \<and> 1 / 243 \<le> S \<and> fsum row = Fin (S / (S + 1 / 10 ^ 10)))"
    by blast
  have "\<forall>row\<in>set conf. length row = n_states cfg \<and> (\<forall>c\<in>set row. nonneg c) \<and>
        (\<exists>s. fsum row = Fin s \<and> 1 - 1 / 10 ^ 7 \<le> s \<and> s \<le> 1)"
  proof
    fix row assume "row \<in> set conf"
    with rows obtain S where "length row = n_states cfg" "\<forall>c\<in>set row. nonneg c"
      "1 / 243 \<le> S" "fsum row = Fin (S / (S + 1 / 10 ^ 10))" by blast
    with floor_tolerance [of S]
    show "length row = n_states cfg \<and> (\<forall>c\<in>set row. nonneg c) \<and>
        (\<exists>s. fsum row = Fin s \<and> 1 - 1 / 10 ^ 7 \<le> s \<and> s \<le> 1)" by blast
  qed
  with c show ?thesis by blast
qed


theorem emission_rows_witness:
  "(mode (stub_cfg 2 1 ''risk'') = ''confidence'' \<or> mode (stub_cfg 2 1 ''risk'') = ''risk'')
   \<and> experts (fresh\<lparr>experts := [0, 0]\<rparr>) \<noteq> []
   \<and> length (experts (fresh\<lparr>experts := [0, 0]\<rparr>)) \<le> n_states (stub_cfg 2 1 ''risk'')
   \<and> binary_experts (stub_env [0] [] [[Fin (3 / 4), Fin (1 / 4)]]) (stub_cfg 2 1 ''risk'')
        (fresh\<lparr>experts := [0, 0]\<rparr>) [0]
   \<and> (\<exists>conf. get_expert_confidence (stub_env [0] [] [[Fin (3 / 4), Fin (1 / 4)]])
          (stub_cfg 2 1 ''risk'') (fresh\<lparr>experts := [0, 0]\<rparr>) [0] = Inr conf
        \<and> length conf = length [0::nat]
        \<and> (\<forall>row\<in>set conf. length row = n_states (stub_cfg 2 1 ''risk'') \<and> (\<forall>c\<in>set row. nonneg c) \<and>
             (\<exists>s. fsum row = Fin s \<and> 1 - 1 / 10 ^ 7 \<le> s \<and> s \<le> 1)))"
proof -
  have a: "mode (stub_cfg 2 1 ''risk'') = ''confidence'' \<or> mode (stub_cfg 2 1 ''risk'') = ''risk''"
    by (simp add: stub_cfg_def)
  have n: "experts (fresh\<lparr>experts := [0, 0]\<rparr>) \<noteq> []"
    by simp
  have b: "length (experts (fresh\<lparr>experts := [0, 0]\<rparr>)) \<le> n_states (stub_cfg 2 1 ''risk'')"
    by (simp add: stub_cfg_def)
  have c: "binary_experts (stub_env [0] [] [[Fin (3 / 4), Fin (1 / 4)]]) (stub_cfg 2 1 ''risk'')
        (fresh\<lparr>experts := [0, 0]\<rparr>) [0]"
    by (simp add: binary_experts_def stub_cfg_def stub_env_def)
  from emission_rows_sum_to_one [OF a n b c] a n b c show ?thesis by blast
qed

section \<open>One regime, one sample\<close>









section \<open>Filling a matrix entry by entry\<close>

text \<open>
  The inner iterations of the passes assign the entries of one row one after the other, reading
  other rows only: they replace the row by the list of the values assigned.
\<close>

lemma foldl_invariant:
  assumes "P a" and "\<And>a x. P a \<Longrightarrow> x \<in> set xs \<Longrightarrow> P (f a x)"
  shows "P (foldl f a xs)"
  using assms by (induction xs arbitrary: a) auto

lemma update_prefix_drop:
  assumes "length xs = n" "n < length r"
  shows "(xs @ drop n r)[n := v] = (xs @ [v]) @ drop (Suc n) r"
proof -
  have "(xs @ drop n r)[n := v] = xs @ (drop n r)[0 := v]"
    using assms(1) by (simp add: list_update_append)
  also have "(drop n r)[0 := v] = v # drop (Suc n) r"
    using assms(2) by (metis Cons_nth_drop_Suc list_update_code(2))
  finally show ?thesis by simp
qed

lemma foldl_set2_row:
  assumes t: "t < length M" and n: "n \<le> length (M ! t)"
    and g: "\<And>M' j. length M' = length M \<Longrightarrow> (\<forall>s. s \<noteq> t \<longrightarrow> M' ! s = M ! s) \<Longrightarrow> g M' j = g M j"
  shows "foldl (\<lambda>M j. set2 M t j (g M j)) M [0..<n] = M[t := map (g M) [0..<n] @ drop n (M ! t)]"
  using n
proof (induction n)
  case 0
  then show ?case by simp
next
  case (Suc n)
  let ?M' = "M[t := map (g M) [0..<n] @ drop n (M ! t)]"
  from Suc have IH: "foldl (\<lambda>M j. set2 M t j (g M j)) M [0..<n] = ?M'" and n: "n < length (M ! t)"
    by simp_all
  have gM: "g ?M' n = g M n"
    by (rule g) (simp_all add: nth_list_update)
  have row: "?M' ! t = map (g M) [0..<n] @ drop n (M ! t)"
    using t by simp
  have "set2 ?M' t n (g ?M' n) = M[t := (map (g M) [0..<n] @ drop n (M ! t))[n := g M n]]"
    unfolding set2_def row gM by simp
  also have "(map (g M) [0..<n] @ drop n (M ! t))[n := g M n]
      = (map (g M) [0..<n] @ [g M n]) @ drop (Suc n) (M ! t)"
    by (rule update_prefix_drop) (use n in auto)
  finally have "set2 ?M' t n (g ?M' n)
      = M[t := (map (g M) [0..<n] @ [g M n]) @ drop (Suc n) (M ! t)]" .
  moreover have "map (g M) [0..<Suc n] = map (g M) [0..<n] @ [g M n]"
    by simp
  ultimately have step: "set2 ?M' t n (g ?M' n)
      = M[t := map (g M) [0..<Suc n] @ drop (Suc n) (M ! t)]"
    by (simp only:)
  have "foldl (\<lambda>M j. set2 M t j (g M j)) M [0..<Suc n]
      = set2 (foldl (\<lambda>M j. set2 M t j (g M j)) M [0..<n]) t n
          (g (foldl (\<lambda>M j. set2 M t j (g M j)) M [0..<n]) n)"
    by simp
  also have "\<dots> = set2 ?M' t n (g ?M' n)"
    by (simp only: IH)
  finally show ?case
    by (simp only: step)
qed

lemma foldl_set2_full_row:
  assumes "t < length M" "length (M ! t) = K"
    and "\<And>M' j. length M' = length M \<Longrightarrow> (\<forall>s. s \<noteq> t \<longrightarrow> M' ! s = M ! s) \<Longrightarrow> g M' j = g M j"
  shows "foldl (\<lambda>M j. set2 M t j (g M j)) M [0..<K] = M[t := map (g M) [0..<K]]"
proof -
  have "foldl (\<lambda>M j. set2 M t j (g M j)) M [0..<K]
      = M[t := map (g M) [0..<K] @ drop K (M ! t)]"
    by (rule foldl_set2_row) (use assms in blast)+
  with assms(2) show ?thesis by simp
qed

section \<open>The forward pass and the log-likelihood\<close>

lemma map2_nth:
  "length xs = n \<Longrightarrow> length ys = n \<Longrightarrow> map2 f xs ys = map (\<lambda>i. f (xs ! i) (ys ! i)) [0..<n]"
  by (auto intro: nth_equalityI)

lemma vadd_column:
  "length prev = K \<Longrightarrow> length log_trans = K \<Longrightarrow>
     vadd prev (column j log_trans) = map (\<lambda>i. fadd (prev ! i) (log_trans ! i ! j)) [0..<K]"
  by (auto simp: vadd_def column_def intro: nth_equalityI)

lemma length_spec_log_alpha:
  "length log_start = K \<Longrightarrow> length (log_B ! 0) = K \<Longrightarrow>
     length (spec_log_alpha K log_start log_trans log_B t) = K"
  by (cases t) (simp_all add: vadd_def)

lemma forward_pass_prefix:
  assumes ls: "length log_start = K" and lB: "length (log_B ! 0) = K"
    and lt: "length log_trans = K" and L: "0 < L"
  shows "1 \<le> m \<Longrightarrow> m \<le> L \<Longrightarrow>
    (let A = foldl (\<lambda>log_alpha t.
              foldl (\<lambda>log_alpha j.
                       set2 log_alpha t j
                         (fadd (logsumexp (vadd (log_alpha ! (t - 1)) (column j log_trans)))
                               (log_B ! t ! j)))
                log_alpha [0..<K])
       ((zeros2 L K)[0 := vadd log_start (log_B ! 0)]) [1..<m]
     in length A = L
        \<and> (\<forall>t<m. A ! t = spec_log_alpha K log_start log_trans log_B t)
        \<and> (\<forall>t. m \<le> t \<and> t < L \<longrightarrow> A ! t = zeros K))"
proof (induction m)
  case 0
  then show ?case by simp
next
  case (Suc m)
  let ?step = "\<lambda>log_alpha t.
              foldl (\<lambda>log_alpha j.
                       set2 log_alpha t j
                         (fadd (logsumexp (vadd (log_alpha ! (t - 1)) (column j log_trans)))
                               (log_B ! t ! j)))
                log_alpha [0..<K]"
  let ?A0 = "(zeros2 L K)[0 := vadd log_start (log_B ! 0)]"
  show ?case
  proof (cases "m = 0")
    case True
    with L show ?thesis
      by (auto simp: Let_def zeros2_def nth_list_update)
  next
    case False
    define A where "A = foldl ?step ?A0 [1..<m]"
    from False Suc have IH: "length A = L"
      "\<forall>t<m. A ! t = spec_log_alpha K log_start log_trans log_B t"
      "\<forall>t. m \<le> t \<and> t < L \<longrightarrow> A ! t = zeros K"
      and m: "m < L" "1 \<le> m"
      by (auto simp: Let_def A_def)
    let ?g = "\<lambda>M j. fadd (logsumexp (vadd (M ! (m - 1)) (column j log_trans))) (log_B ! m ! j)"
    have row: "length (A ! m) = K"
      using IH(3) m by (simp add: zeros_def)
    have inner: "foldl (\<lambda>M j. set2 M m j (?g M j)) A [0..<K] = A[m := map (?g A) [0..<K]]"
    proof (rule foldl_set2_full_row)
      show "m < length A" using IH(1) m by simp
      show "length (A ! m) = K" by (rule row)
      fix M' j assume "length M' = length A" "\<forall>s. s \<noteq> m \<longrightarrow> M' ! s = A ! s"
      with m have "M' ! (m - 1) = A ! (m - 1)" by simp
      then show "?g M' j = ?g A j" by simp
    qed
    have prev: "A ! (m - 1) = spec_log_alpha K log_start log_trans log_B (m - 1)"
      using IH(2) m by simp
    from m obtain m' where m': "m = Suc m'"
      by (cases m) auto
    have new: "map (?g A) [0..<K] = spec_log_alpha K log_start log_trans log_B m"
      unfolding prev
      by (simp add: m' vadd_column [OF length_spec_log_alpha [OF ls lB] lt])
    have "foldl ?step ?A0 [1..<Suc m] = ?step A m"
      using m by (simp add: A_def)
    also have "\<dots> = A[m := spec_log_alpha K log_start log_trans log_B m]"
      using inner new by simp
    finally have res: "foldl ?step ?A0 [1..<Suc m] = A[m := spec_log_alpha K log_start log_trans log_B m]" .
    show ?thesis
      unfolding Let_def res using IH m
      by (auto simp: nth_list_update less_Suc_eq)
  qed
qed

lemma forward_pass_rows:
  assumes "length log_start = K" "length (log_B ! 0) = K" "length log_trans = K" "0 < L"
  shows "length (forward_pass K log_start log_trans log_B L) = L
     \<and> (\<forall>t<L. forward_pass K log_start log_trans log_B L ! t
            = spec_log_alpha K log_start log_trans log_B t)"
  using forward_pass_prefix [OF assms, of L] assms(4)
  by (simp add: forward_pass_def Let_def)

lemma forward_backward_chains_returns:
  "\<forall>L\<in>set lengths. 0 < L \<Longrightarrow> cursor + sum_list lengths \<le> length log_emissions \<Longrightarrow>
     \<exists>r. forward_backward_chains K log_start log_trans log_emissions lengths cursor acc = Inr r"
proof (induction lengths arbitrary: cursor acc)
  case Nil
  then show ?case by (cases acc) auto
next
  case (Cons L rest)
  obtain gamma xi_sum total_ll where acc: "acc = (gamma, xi_sum, total_ll)"
    by (metis prod_cases3)
  from Cons.prems have ok: "\<not> (L = 0 \<or> length (take L (drop cursor log_emissions)) < L)"
    by auto
  from Cons.prems have "\<forall>L\<in>set rest. 0 < L" "(cursor + L) + sum_list rest \<le> length log_emissions"
    by auto
  from Cons.IH [OF this] ok show ?case
    unfolding acc by (simp add: Let_def)
qed

lemma forward_backward_chains_sum:
  "forward_backward_chains K log_start log_trans log_emissions lengths cursor
           (gamma, xi_sum, total_ll) = Inr (g, x, l) \<Longrightarrow>
     l = foldl fadd total_ll
           (map (\<lambda>c. logsumexp (last (forward_pass K log_start log_trans
                         (take (lengths ! c) (drop (cursor + sum_list (take c lengths)) log_emissions))
                         (lengths ! c))))
              [0..<length lengths])
     \<and> (\<forall>c<length lengths. 0 < lengths ! c
           \<and> cursor + sum_list (take c lengths) + lengths ! c \<le> length log_emissions)"
proof (induction lengths arbitrary: cursor gamma xi_sum total_ll)
  case Nil
  then show ?case by simp
next
  case (Cons L rest)
  let ?log_B = "take L (drop cursor log_emissions)"
  from Cons.prems have ok: "\<not> (L = 0 \<or> length ?log_B < L)"
    by (auto simp: Let_def split: if_splits)
  then have L: "0 < L" and fit: "cursor + L \<le> length log_emissions"
    by auto
  let ?total' = "fadd total_ll (logsumexp (last (forward_pass K log_start log_trans ?log_B L)))"
  from Cons.prems ok obtain gamma' xi' where
    rec: "forward_backward_chains K log_start log_trans log_emissions rest (cursor + L)
            (gamma', xi', ?total') = Inr (g, x, l)"
    by (simp add: Let_def)
  from Cons.IH [OF rec]
  have l: "l = foldl fadd ?total'
           (map (\<lambda>c. logsumexp (last (forward_pass K log_start log_trans
                         (take (rest ! c) (drop (cursor + L + sum_list (take c rest)) log_emissions))
                         (rest ! c))))
              [0..<length rest])"
    and v: "\<forall>c<length rest. 0 < rest ! c
           \<and> cursor + L + sum_list (take c rest) + rest ! c \<le> length log_emissions"
    by blast+
  from l have 1: "l = foldl fadd total_ll
           (map (\<lambda>c. logsumexp (last (forward_pass K log_start log_trans
                         (take ((L # rest) ! c) (drop (cursor + sum_list (take c (L # rest))) log_emissions))
                         ((L # rest) ! c))))
              [0..<length (L # rest)])"
    by (simp add: map_upt_Suc add.assoc del: upt_Suc)
  have 2: "\<forall>c<length (L # rest). 0 < (L # rest) ! c
           \<and> cursor + sum_list (take c (L # rest)) + (L # rest) ! c \<le> length log_emissions"
  proof (intro allI impI)
    fix c assume c: "c < length (L # rest)"
    show "0 < (L # rest) ! c
           \<and> cursor + sum_list (take c (L # rest)) + (L # rest) ! c \<le> length log_emissions"
    proof (cases c)
      case 0
      with L fit show ?thesis by simp
    next
      case (Suc c')
      with c v show ?thesis by (simp add: add.assoc)
    qed
  qed
  from 1 2 show ?case by blast
qed

lemma forward_backward_unfold:
  "forward_backward cfg self log_emissions lengths =
     forward_backward_chains (n_states cfg) (log_start_of self) (log_trans_of self)
       log_emissions lengths 0
       (zeros2 (length log_emissions) (n_states cfg), zeros2 (n_states cfg) (n_states cfg), Fin 0)"
  by (simp add: forward_backward_def log_start_of_def log_trans_of_def Let_def)

lemma forward_pass_recurrence:
  assumes "length log_start = K" "length (log_B ! 0) = K" "length log_trans = K" "0 < L"
  shows "forward_pass K log_start log_trans log_B L ! 0 = vadd log_start (log_B ! 0)
     \<and> (\<forall>t j. 1 \<le> t \<and> t < L \<and> j < K \<longrightarrow>
          forward_pass K log_start log_trans log_B L ! t ! j
            = fadd (logsumexp (map (\<lambda>i. fadd (forward_pass K log_start log_trans log_B L ! (t - 1) ! i)
                                              (log_trans ! i ! j)) [0..<K]))
                   (log_B ! t ! j))"
proof (intro conjI allI impI)
  from forward_pass_rows [OF assms]
  have rows: "\<forall>t<L. forward_pass K log_start log_trans log_B L ! t
            = spec_log_alpha K log_start log_trans log_B t" by blast
  with assms(4) show "forward_pass K log_start log_trans log_B L ! 0 = vadd log_start (log_B ! 0)"
    by simp
  fix t j assume a: "1 \<le> t \<and> t < L \<and> j < K"
  then obtain t' where t': "t = Suc t'" by (cases t) auto
  with a rows have "forward_pass K log_start log_trans log_B L ! t
       = spec_log_alpha K log_start log_trans log_B (Suc t')"
    and "forward_pass K log_start log_trans log_B L ! (t - 1)
       = spec_log_alpha K log_start log_trans log_B t'"
    by simp_all
  with a show "forward_pass K log_start log_trans log_B L ! t ! j
            = fadd (logsumexp (map (\<lambda>i. fadd (forward_pass K log_start log_trans log_B L ! (t - 1) ! i)
                                              (log_trans ! i ! j)) [0..<K]))
                   (log_B ! t ! j)"
    by (simp add: t')
qed

text \<open>
  Claim C1. When \<^verbatim>\<open>_forward_backward\<close> returns, the array \<open>log_alpha\<close> it has computed for each
  chain satisfies the forward recursion: its first row is \<open>log_start + log_B[0]\<close>, and for
  \<open>1 \<le> t < L\<close> and each regime \<open>j\<close> the entry \<open>log_alpha[t, j]\<close> is
  \<open>logsumexp_i (log_alpha[t-1, i] + log_trans[i, j]) + log_B[t, j]\<close>; the total log-likelihood
  returned is the sum over the chains of \<open>logsumexp (log_alpha[L-1])\<close>. It returns whenever
  no chain is empty and the chains fit in the log-emission matrix. The start vector, the
  transition matrix and the rows of the log-emission matrix have \<open>n_states\<close> entries.
\<close>

theorem forward_recursion_and_total:
  assumes sp: "length (startprob self) = n_states cfg"
    and tm: "length (transmat self) = n_states cfg"
    and le: "\<forall>row\<in>set log_emissions. length row = n_states cfg"
  shows "(forward_backward cfg self log_emissions lengths = Inr (gamma, xi_sum, ll) \<longrightarrow>
       (\<forall>c<length lengths.
          chain_log_alpha cfg self log_emissions lengths c ! 0
            = vadd (log_start_of self) (chain_log_B log_emissions lengths c ! 0)
          \<and> (\<forall>t j. 1 \<le> t \<and> t < lengths ! c \<and> j < n_states cfg \<longrightarrow>
                chain_log_alpha cfg self log_emissions lengths c ! t ! j
                  = fadd (logsumexp
                            (map (\<lambda>i. fadd (chain_log_alpha cfg self log_emissions lengths c ! (t - 1) ! i)
                                           (log_trans_of self ! i ! j))
                               [0..<n_states cfg]))
                         (chain_log_B log_emissions lengths c ! t ! j)))
       \<and> ll = fsum (map (\<lambda>c. logsumexp (last (chain_log_alpha cfg self log_emissions lengths c)))
                     [0..<length lengths]))
   \<and> ((\<forall>L\<in>set lengths. 0 < L) \<and> sum_list lengths \<le> length log_emissions \<longrightarrow>
        (\<exists>r. forward_backward cfg self log_emissions lengths = Inr r))"
proof -
  have ls: "length (log_start_of self) = n_states cfg" and lt: "length (log_trans_of self) = n_states cfg"
    using sp tm by (simp_all add: log_start_of_def log_trans_of_def)
  have A: "\<forall>c<length lengths.
          chain_log_alpha cfg self log_emissions lengths c ! 0
            = vadd (log_start_of self) (chain_log_B log_emissions lengths c ! 0)
          \<and> (\<forall>t j. 1 \<le> t \<and> t < lengths ! c \<and> j < n_states cfg \<longrightarrow>
                chain_log_alpha cfg self log_emissions lengths c ! t ! j
                  = fadd (logsumexp
                            (map (\<lambda>i. fadd (chain_log_alpha cfg self log_emissions lengths c ! (t - 1) ! i)
                                           (log_trans_of self ! i ! j))
                               [0..<n_states cfg]))
                         (chain_log_B log_emissions lengths c ! t ! j))"
    and B: "ll = fsum (map (\<lambda>c. logsumexp (last (chain_log_alpha cfg self log_emissions lengths c)))
                     [0..<length lengths])"
    if ret: "forward_backward cfg self log_emissions lengths = Inr (gamma, xi_sum, ll)"
  proof -
    from forward_backward_chains_sum [OF ret [unfolded forward_backward_unfold]]
    have sum: "ll = foldl fadd (Fin 0)
           (map (\<lambda>c. logsumexp (last (forward_pass (n_states cfg) (log_start_of self) (log_trans_of self)
                         (take (lengths ! c) (drop (0 + sum_list (take c lengths)) log_emissions))
                         (lengths ! c))))
              [0..<length lengths])"
      and valid: "\<forall>c<length lengths. 0 < lengths ! c
           \<and> 0 + sum_list (take c lengths) + lengths ! c \<le> length log_emissions"
      by blast+
    from sum show "ll = fsum (map (\<lambda>c. logsumexp (last (chain_log_alpha cfg self log_emissions lengths c)))
                     [0..<length lengths])"
      by (simp add: fsum_def chain_log_alpha_def chain_log_B_def)
    show "\<forall>c<length lengths.
          chain_log_alpha cfg self log_emissions lengths c ! 0
            = vadd (log_start_of self) (chain_log_B log_emissions lengths c ! 0)
          \<and> (\<forall>t j. 1 \<le> t \<and> t < lengths ! c \<and> j < n_states cfg \<longrightarrow>
                chain_log_alpha cfg self log_emissions lengths c ! t ! j
                  = fadd (logsumexp
                            (map (\<lambda>i. fadd (chain_log_alpha cfg self log_emissions lengths c ! (t - 1) ! i)
                                           (log_trans_of self ! i ! j))
                               [0..<n_states cfg]))
                         (chain_log_B log_emissions lengths c ! t ! j))"
    proof (intro allI impI)
      fix c assume c: "c < length lengths"
      with valid have L: "0 < lengths ! c"
        and fit: "sum_list (take c lengths) + lengths ! c \<le> length log_emissions"
        by auto
      then have "chain_log_B log_emissions lengths c ! 0 = log_emissions ! (sum_list (take c lengths))"
        "sum_list (take c lengths) < length log_emissions"
        by (auto simp: chain_log_B_def)
      with le have lB: "length (chain_log_B log_emissions lengths c ! 0) = n_states cfg"
        by simp
      from forward_pass_recurrence [OF ls lB lt L]
      show "chain_log_alpha cfg self log_emissions lengths c ! 0
            = vadd (log_start_of self) (chain_log_B log_emissions lengths c ! 0)
          \<and> (\<forall>t j. 1 \<le> t \<and> t < lengths ! c \<and> j < n_states cfg \<longrightarrow>
                chain_log_alpha cfg self log_emissions lengths c ! t ! j
                  = fadd (logsumexp
                            (map (\<lambda>i. fadd (chain_log_alpha cfg self log_emissions lengths c ! (t - 1) ! i)
                                           (log_trans_of self ! i ! j))
                               [0..<n_states cfg]))
                         (chain_log_B log_emissions lengths c ! t ! j))"
        unfolding chain_log_alpha_def .
    qed
  qed
  have C: "\<exists>r. forward_backward cfg self log_emissions lengths = Inr r"
    if "(\<forall>L\<in>set lengths. 0 < L) \<and> sum_list lengths \<le> length log_emissions"
    unfolding forward_backward_unfold
    by (intro forward_backward_chains_returns) (use that in auto)
  from A B C show ?thesis by blast
qed

theorem forward_recursion_witness:
  "length (startprob \<lparr>experts = [0::nat, 0], startprob = [Fin (1 / 2), Fin (1 / 2)],
           transmat = [[Fin (9 / 10), Fin (1 / 10)], [Fin (1 / 10), Fin (9 / 10)]],
           monitor = [], rng = ()\<rparr>) = n_states (stub_cfg 2 1 ''risk'')
   \<and> length (transmat \<lparr>experts = [0::nat, 0], startprob = [Fin (1 / 2), Fin (1 / 2)],
           transmat = [[Fin (9 / 10), Fin (1 / 10)], [Fin (1 / 10), Fin (9 / 10)]],
           monitor = [], rng = ()\<rparr>) = n_states (stub_cfg 2 1 ''risk'')
   \<and> length [Fin 0, Fin 0] = n_states (stub_cfg 2 1 ''risk'')
   \<and> (0::nat) < 2 \<and> sum_list [2] \<le> length [[Fin 0, Fin 0], [Fin 0, Fin 0]]
   \<and> forward_backward (stub_cfg 2 1 ''risk'')
        \<lparr>experts = [0::nat, 0], startprob = [Fin (1 / 2), Fin (1 / 2)],
           transmat = [[Fin (9 / 10), Fin (1 / 10)], [Fin (1 / 10), Fin (9 / 10)]],
           monitor = [], rng = ()\<rparr>
        [[Fin 0, Fin 0], [Fin 0, Fin 0]] [2]
      = Inr ([[Fin (1 / 2), Fin (1 / 2)], [Fin (1 / 2), Fin (1 / 2)]],
             [[Fin (9000000001 / 20000000004), Fin (1000000001 / 20000000004)],
              [Fin (1000000001 / 20000000004), Fin (9000000001 / 20000000004)]],
             Fin (ln (25000000010000000001 / 25000000000000000000)))
   \<and> chain_log_alpha (stub_cfg 2 1 ''risk'')
        \<lparr>experts = [0::nat, 0], startprob = [Fin (1 / 2), Fin (1 / 2)],
           transmat = [[Fin (9 / 10), Fin (1 / 10)], [Fin (1 / 10), Fin (9 / 10)]],
           monitor = [], rng = ()\<rparr>
        [[Fin 0, Fin 0], [Fin 0, Fin 0]] [2] 0
      = [[Fin (ln (5000000001 / 10000000000)), Fin (ln (5000000001 / 10000000000))],
         [Fin (ln (25000000010000000001 / 50000000000000000000)),
          Fin (ln (25000000010000000001 / 50000000000000000000))]]
   \<and> Fin (ln (25000000010000000001 / 25000000000000000000))
      = fsum (map (\<lambda>c. logsumexp (last (chain_log_alpha (stub_cfg 2 1 ''risk'')
           \<lparr>experts = [0::nat, 0], startprob = [Fin (1 / 2), Fin (1 / 2)],
             transmat = [[Fin (9 / 10), Fin (1 / 10)], [Fin (1 / 10), Fin (9 / 10)]],
             monitor = [], rng = ()\<rparr>
           [[Fin 0, Fin 0], [Fin 0, Fin 0]] [2] c))) [0..<length [2::nat]])"
proof -
  let ?cfg = "stub_cfg 2 1 ''risk''"
  let ?self = "\<lparr>experts = [0::nat, 0], startprob = [Fin (1 / 2), Fin (1 / 2)],
           transmat = [[Fin (9 / 10), Fin (1 / 10)], [Fin (1 / 10), Fin (9 / 10)]],
           monitor = [], rng = ()\<rparr>"
  let ?le = "[[Fin 0, Fin 0], [Fin 0, Fin 0]]"
  let ?ll = "Fin (ln (25000000010000000001 / 25000000000000000000))"
  have sp: "length (startprob ?self) = n_states ?cfg"
    and tm: "length (transmat ?self) = n_states ?cfg"
    and le: "\<forall>row\<in>set ?le. length row = n_states ?cfg"
    by (simp_all add: stub_cfg_def)
  have fb: "forward_backward ?cfg ?self ?le [2]
      = Inr ([[Fin (1 / 2), Fin (1 / 2)], [Fin (1 / 2), Fin (1 / 2)]],
             [[Fin (9000000001 / 20000000004), Fin (1000000001 / 20000000004)],
              [Fin (1000000001 / 20000000004), Fin (9000000001 / 20000000004)]], ?ll)"
    by (simp add: eval_defs exp_add exp_diff exp_minus)
  have al: "chain_log_alpha ?cfg ?self ?le [2] 0
      = [[Fin (ln (5000000001 / 10000000000)), Fin (ln (5000000001 / 10000000000))],
         [Fin (ln (25000000010000000001 / 50000000000000000000)),
          Fin (ln (25000000010000000001 / 50000000000000000000))]]"
    by (simp add: chain_log_alpha_def chain_log_B_def log_start_of_def log_trans_of_def eval_defs
        exp_add exp_diff exp_minus)
  from forward_recursion_and_total [OF sp tm le, of "[2]"] fb
  have "?ll = fsum (map (\<lambda>c. logsumexp (last (chain_log_alpha ?cfg ?self ?le [2] c)))
                     [0..<length [2::nat]])"
    by blast
  with sp tm le fb al show ?thesis
    by (simp add: stub_cfg_def)
qed

section \<open>The posterior\<close>

lemma sum_list_exp_nonneg: "0 \<le> sum_list (map exp (rs::real list))"
  by (induction rs) auto

lemma sum_list_exp_pos: "rs \<noteq> [] \<Longrightarrow> 0 < sum_list (map exp (rs::real list))"
  using sum_list_exp_nonneg by (cases rs) (auto simp: add_pos_nonneg)

lemma logsumexp_Fin:
  "rs \<noteq> [] \<Longrightarrow> logsumexp (map Fin rs) = Fin (ln (sum_list (map exp rs)))"
proof -
  assume "rs \<noteq> []"
  then have "0 < sum_list (map exp rs)" by (rule sum_list_exp_pos)
  moreover have "map fexp (map Fin rs) = map Fin (map exp rs)" by simp
  ultimately show ?thesis
    unfolding logsumexp_def by (simp only: fsum_Fin flog.simps if_True)
qed

lemma is_fin_logsumexp: "0 < K \<Longrightarrow> finite_vec K xs \<Longrightarrow> is_fin (logsumexp xs)"
proof -
  assume K: "0 < K" and f: "finite_vec K xs"
  then have "\<forall>x\<in>set xs. is_fin x" and ne: "map the_fin xs \<noteq> []"
    by (auto simp: finite_vec_def)
  from fin_list_eq [OF this(1)] ne have "xs = map Fin (map the_fin xs)" "map the_fin xs \<noteq> []"
    by blast+
  with logsumexp_Fin [of "map the_fin xs"] show ?thesis
    by (metis is_fin.simps(1))
qed

lemma is_fin_fadd: "is_fin x \<Longrightarrow> is_fin y \<Longrightarrow> is_fin (fadd x y)"
  by (cases x; cases y) auto

lemma finite_vec_vadd: "finite_vec K xs \<Longrightarrow> finite_vec K ys \<Longrightarrow> finite_vec K (vadd xs ys)"
  by (auto simp: finite_vec_def vadd_def is_fin_fadd dest!: set_zip_leftD set_zip_rightD
      elim!: in_set_zipE)

lemma finite_vec_nth: "finite_vec K v \<Longrightarrow> j < K \<Longrightarrow> is_fin (v ! j)"
  by (auto simp: finite_vec_def)

lemma finite_matrix_nth: "finite_matrix L K M \<Longrightarrow> t < L \<Longrightarrow> finite_vec K (M ! t)"
  by (auto simp: finite_matrix_def)

lemma finite_vec_map: "(\<And>j. j < K \<Longrightarrow> is_fin (f j)) \<Longrightarrow> finite_vec K (map f [0..<K])"
  by (auto simp: finite_vec_def)

lemma finite_matrix_update:
  "finite_matrix L K M \<Longrightarrow> finite_vec K r \<Longrightarrow> finite_matrix L K (M[t := r])"
  using set_update_subset_insert [of M t r]
  by (auto simp: finite_matrix_def)

lemma finite_matrix_zeros: "finite_matrix L K (zeros2 L K)"
  by (auto simp: finite_matrix_def finite_vec_def zeros2_def zeros_def)

lemma finite_vec_column: "finite_matrix K K M \<Longrightarrow> j < K \<Longrightarrow> finite_vec K (column j M)"
  by (auto simp: finite_matrix_def finite_vec_def column_def)

lemma finite_spec_log_alpha:
  assumes K: "0 < K" and ls: "finite_vec K log_start" and lt: "finite_matrix K K log_trans"
    and lB: "\<forall>t<L. finite_vec K (log_B ! t)" and L: "0 < L"
  shows "t < L \<Longrightarrow> finite_vec K (spec_log_alpha K log_start log_trans log_B t)"
proof (induction t)
  case 0
  with ls lB L show ?case by (simp add: finite_vec_vadd)
next
  case (Suc t)
  then have IH: "finite_vec K (spec_log_alpha K log_start log_trans log_B t)" by simp
  have "\<And>j. j < K \<Longrightarrow>
      is_fin (fadd (logsumexp (map (\<lambda>i. fadd (spec_log_alpha K log_start log_trans log_B t ! i)
                                            (log_trans ! i ! j)) [0..<K]))
                   (log_B ! Suc t ! j))"
  proof -
    fix j assume j: "j < K"
    have "finite_vec K (map (\<lambda>i. fadd (spec_log_alpha K log_start log_trans log_B t ! i)
                                            (log_trans ! i ! j)) [0..<K])"
    proof (rule finite_vec_map)
      fix i assume i: "i < K"
      from lt i have "finite_vec K (log_trans ! i)" by (rule finite_matrix_nth)
      from this j have "is_fin (log_trans ! i ! j)" by (rule finite_vec_nth)
      with finite_vec_nth [OF IH i]
      show "is_fin (fadd (spec_log_alpha K log_start log_trans log_B t ! i) (log_trans ! i ! j))"
        by (rule is_fin_fadd)
    qed
    with K have "is_fin (logsumexp (map (\<lambda>i. fadd (spec_log_alpha K log_start log_trans log_B t ! i)
                                            (log_trans ! i ! j)) [0..<K]))"
      by (rule is_fin_logsumexp)
    moreover from lB Suc.prems j have "is_fin (log_B ! Suc t ! j)"
      by (auto intro: finite_vec_nth)
    ultimately show "is_fin (fadd (logsumexp (map (\<lambda>i. fadd (spec_log_alpha K log_start log_trans log_B t ! i)
                                            (log_trans ! i ! j)) [0..<K]))
                   (log_B ! Suc t ! j))"
      by (rule is_fin_fadd)
  qed
  then show ?case
    by (simp add: finite_vec_map)
qed

lemma finite_forward_pass:
  assumes K: "0 < K" and ls: "finite_vec K log_start" and lt: "finite_matrix K K log_trans"
    and lB: "\<forall>t<L. finite_vec K (log_B ! t)" and L: "0 < L"
  shows "finite_matrix L K (forward_pass K log_start log_trans log_B L)"
proof -
  from ls have 1: "length log_start = K" by (simp add: finite_vec_def)
  from lB L have 2: "length (log_B ! 0) = K" by (auto simp: finite_vec_def)
  from lt have 3: "length log_trans = K" by (simp add: finite_matrix_def)
  from forward_pass_rows [OF 1 2 3 L]
  have len: "length (forward_pass K log_start log_trans log_B L) = L"
    and rows: "\<forall>t<L. forward_pass K log_start log_trans log_B L ! t
            = spec_log_alpha K log_start log_trans log_B t"
    by blast+
  have "\<And>row. row \<in> set (forward_pass K log_start log_trans log_B L) \<Longrightarrow> finite_vec K row"
  proof -
    fix row assume "row \<in> set (forward_pass K log_start log_trans log_B L)"
    with len obtain t where "t < L" "row = forward_pass K log_start log_trans log_B L ! t"
      by (metis in_set_conv_nth)
    with rows finite_spec_log_alpha [OF K ls lt lB L] show "finite_vec K row" by simp
  qed
  with len show ?thesis by (simp add: finite_matrix_def)
qed

lemma finite_backward_pass:
  assumes K: "0 < K" and lt: "finite_matrix K K log_trans"
    and lB: "\<forall>t<L. finite_vec K (log_B ! t)"
  shows "finite_matrix L K (backward_pass K log_trans log_B L)"
  unfolding backward_pass_def
proof (rule foldl_invariant [where P = "finite_matrix L K"])
  show "finite_matrix L K (zeros2 L K)" by (rule finite_matrix_zeros)
  fix M t assume M: "finite_matrix L K M" and t: "t \<in> set (rev [0..<L - 1])"
  then have tL: "t < L" "t + 1 < L" by auto
  let ?g = "\<lambda>M i. logsumexp (vadd (vadd (log_trans ! i) (log_B ! (t + 1))) (M ! (t + 1)))"
  have inner: "foldl (\<lambda>M i. set2 M t i (?g M i)) M [0..<K] = M[t := map (?g M) [0..<K]]"
  proof (rule foldl_set2_full_row)
    from M tL show "t < length M" by (simp add: finite_matrix_def)
    from finite_matrix_nth [OF M tL(1)] show "length (M ! t) = K" by (simp add: finite_vec_def)
    fix M' i assume "length M' = length M" "\<forall>s. s \<noteq> t \<longrightarrow> M' ! s = M ! s"
    then have "M' ! (t + 1) = M ! (t + 1)" by simp
    then show "?g M' i = ?g M i" by simp
  qed
  have "finite_vec K (map (?g M) [0..<K])"
  proof (rule finite_vec_map)
    fix i assume i: "i < K"
    from lt i have a: "finite_vec K (log_trans ! i)" by (rule finite_matrix_nth)
    from lB tL have b: "finite_vec K (log_B ! (t + 1))" by simp
    from M tL have c: "finite_vec K (M ! (t + 1))" by (simp add: finite_matrix_nth)
    from a b c have "finite_vec K (vadd (vadd (log_trans ! i) (log_B ! (t + 1))) (M ! (t + 1)))"
      by (intro finite_vec_vadd)
    with K show "is_fin (?g M i)" by (rule is_fin_logsumexp)
  qed
  with M have "finite_matrix L K (M[t := map (?g M) [0..<K]])"
    by (rule finite_matrix_update)
  with inner show "finite_matrix L K (foldl (\<lambda>M i. set2 M t i (?g M i)) M [0..<K])"
    by simp
qed

lemma sum_list_map_div: "sum_list (map (\<lambda>r. f r / c) rs) = sum_list (map f rs) / (c::real)"
  by (induction rs) (auto simp: add_divide_distrib)

lemma softmax_row:
  assumes K: "0 < K" and r: "finite_vec K r"
  shows "fsum (map fexp (map (\<lambda>x. fsub x (logsumexp r)) r)) = Fin 1"
proof -
  define rs where "rs = map the_fin r"
  from r have "\<forall>x\<in>set r. is_fin x" by (simp add: finite_vec_def)
  from fin_list_eq [OF this] have row: "r = map Fin rs" by (simp add: rs_def)
  from r K have ne: "rs \<noteq> []" by (auto simp: finite_vec_def rs_def)
  define S where "S = sum_list (map exp rs)"
  from ne have S: "0 < S" unfolding S_def by (rule sum_list_exp_pos)
  have lse: "logsumexp (map Fin rs) = Fin (ln S)"
    unfolding S_def using ne by (rule logsumexp_Fin)
  have "map fexp (map (\<lambda>x. fsub x (Fin (ln S))) (map Fin rs))
      = map Fin (map (\<lambda>a. exp a / S) rs)"
    using S by (simp add: fsub_def exp_diff)
  then have "fsum (map fexp (map (\<lambda>x. fsub x (logsumexp r)) r))
      = Fin (sum_list (map (\<lambda>a. exp a / S) rs))"
    unfolding row lse by (simp only: fsum_Fin)
  also have "sum_list (map (\<lambda>a. exp a / S) rs) = 1"
    unfolding sum_list_map_div using S by (simp add: S_def)
  finally show ?thesis .
qed

lemma gamma_rows:
  assumes K: "0 < K" and A: "finite_matrix L K A" and B: "finite_matrix L K B"
  shows "length (map (map fexp) (normalize_log_rows (madd A B))) = L
     \<and> (\<forall>row\<in>set (map (map fexp) (normalize_log_rows (madd A B))). posterior_row K row)"
proof -
  from A B have len: "length (madd A B) = L"
    by (simp add: madd_def finite_matrix_def)
  have "\<And>r. r \<in> set (madd A B) \<Longrightarrow> finite_vec K r"
  proof -
    fix r assume "r \<in> set (madd A B)"
    then obtain a b where "(a, b) \<in> set (zip A B)" "r = vadd a b"
      by (auto simp: madd_def)
    with A B show "finite_vec K r"
      by (auto simp: finite_matrix_def intro!: finite_vec_vadd dest: set_zip_leftD set_zip_rightD)
  qed
  then have "\<And>r. r \<in> set (madd A B) \<Longrightarrow>
      posterior_row K (map fexp (map (\<lambda>x. fsub x (logsumexp r)) r))"
    using softmax_row [OF K] by (simp add: posterior_row_def finite_vec_def)
  with len show ?thesis
    by (auto simp: normalize_log_rows_def)
qed

lemma forward_backward_chains_gamma:
  assumes K: "0 < K" and ls: "finite_vec K log_start" and lt: "finite_matrix K K log_trans"
    and le: "\<forall>row\<in>set log_emissions. finite_vec K row"
  shows "\<forall>L\<in>set lengths. 0 < L \<Longrightarrow> cursor + sum_list lengths \<le> length log_emissions \<Longrightarrow>
     length gamma = length log_emissions \<Longrightarrow>
     \<forall>row\<in>set (take cursor gamma). posterior_row K row \<Longrightarrow>
     \<exists>g x l. forward_backward_chains K log_start log_trans log_emissions lengths cursor
                (gamma, xi_sum, total_ll) = Inr (g, x, l)
        \<and> length g = length log_emissions
        \<and> (\<forall>row\<in>set (take (cursor + sum_list lengths) g). posterior_row K row)"
proof (induction lengths arbitrary: cursor gamma xi_sum total_ll)
  case Nil
  then show ?case by simp
next
  case (Cons L rest)
  let ?log_B = "take L (drop cursor log_emissions)"
  from Cons.prems have L: "0 < L" and fit: "cursor + L \<le> length log_emissions"
    by auto
  then have lenB: "length ?log_B = L" by simp
  have lB: "\<forall>t<L. finite_vec K (?log_B ! t)"
  proof (intro allI impI)
    fix t assume "t < L"
    with fit have "?log_B ! t = log_emissions ! (cursor + t)" "cursor + t < length log_emissions"
      by auto
    with le show "finite_vec K (?log_B ! t)" by simp
  qed
  let ?A = "forward_pass K log_start log_trans ?log_B L"
  let ?B = "backward_pass K log_trans ?log_B L"
  let ?G = "map (map fexp) (normalize_log_rows (madd ?A ?B))"
  let ?gamma' = "take cursor gamma @ ?G @ drop (cursor + L) gamma"
  from gamma_rows [OF K finite_forward_pass [OF K ls lt lB L] finite_backward_pass [OF K lt lB]]
  have lenG: "length ?G = L" and G: "\<forall>row\<in>set ?G. posterior_row K row"
    by blast+
  from Cons.prems(3) fit lenG have len': "length ?gamma' = length log_emissions"
    by simp
  from Cons.prems(3) fit lenG have "take (cursor + L) ?gamma' = take cursor gamma @ ?G"
    by simp
  with Cons.prems(4) G have good: "\<forall>row\<in>set (take (cursor + L) ?gamma'). posterior_row K row"
    by auto
  from Cons.prems have rest: "\<forall>L\<in>set rest. 0 < L"
    "(cursor + L) + sum_list rest \<le> length log_emissions"
    by auto
  from Cons.IH [OF rest len' good] obtain g x l where
    "forward_backward_chains K log_start log_trans log_emissions rest (cursor + L)
       (?gamma', accumulate_xi K ?A log_trans ?log_B ?B L xi_sum,
        fadd total_ll (logsumexp (last ?A))) = Inr (g, x, l)"
    "length g = length log_emissions"
    "\<forall>row\<in>set (take (cursor + L + sum_list rest) g). posterior_row K row"
    by blast
  with L lenB show ?case
    by (simp add: Let_def add.assoc)
qed

lemma is_fin_log_floor: "nonneg p \<Longrightarrow> is_fin (flog (fadd p eps10))"
proof -
  assume "nonneg p"
  then obtain a where p: "p = Fin a" and a: "0 \<le> a" by (cases p) auto
  from a have "0 < a + 1 / 10 ^ 10"
    by (smt (verit) divide_pos_pos zero_less_power)
  then show ?thesis by (simp add: p eps10_def)
qed

lemma finite_log_start_of: "nonneg_vec K (startprob self) \<Longrightarrow> finite_vec K (log_start_of self)"
  by (auto simp: nonneg_vec_def finite_vec_def log_start_of_def is_fin_log_floor)

lemma finite_log_trans_of:
  "nonneg_matrix K K (transmat self) \<Longrightarrow> finite_matrix K K (log_trans_of self)"
  by (auto simp: nonneg_matrix_def finite_matrix_def finite_vec_def log_trans_of_def is_fin_log_floor)

text \<open>
  Claim C2. On a valid input (a log-emission matrix of real numbers with \<open>n_states\<close> columns,
  and chains of at least one sample whose lengths sum to its number of rows), with start
  probabilities and transition probabilities that are non-negative real numbers,
  \<^verbatim>\<open>_forward_backward\<close> returns, and every row of \<open>gamma\<close> sums to 1: exactly in this model,
  where the arithmetic is exact, and so within \<open>1e-6\<close>.
\<close>

theorem gamma_rows_sum_to_one:
  assumes K: "0 < n_states cfg"
    and sp: "nonneg_vec (n_states cfg) (startprob self)"
    and tm: "nonneg_matrix (n_states cfg) (n_states cfg) (transmat self)"
    and le: "\<forall>row\<in>set log_emissions. finite_vec (n_states cfg) row"
    and pos: "\<forall>L\<in>set lengths. 0 < L"
    and total: "sum_list lengths = length log_emissions"
  shows "\<exists>gamma xi_sum ll.
     forward_backward cfg self log_emissions lengths = Inr (gamma, xi_sum, ll)
     \<and> length gamma = length log_emissions
     \<and> (\<forall>row\<in>set gamma. length row = n_states cfg \<and> fsum row = Fin 1
           \<and> \<bar>the_fin (fsum row) - 1\<bar> \<le> 1 / 10 ^ 6)"
proof -
  let ?N = "length log_emissions" and ?K = "n_states cfg"
  have "\<exists>g x l. forward_backward_chains ?K (log_start_of self) (log_trans_of self) log_emissions
                lengths 0 (zeros2 ?N ?K, zeros2 ?K ?K, Fin 0) = Inr (g, x, l)
        \<and> length g = ?N
        \<and> (\<forall>row\<in>set (take (0 + sum_list lengths) g). posterior_row ?K row)"
    by (rule forward_backward_chains_gamma
          [OF K finite_log_start_of [OF sp] finite_log_trans_of [OF tm] le pos])
       (simp_all add: total zeros2_def)
  then obtain g x l where
    r: "forward_backward cfg self log_emissions lengths = Inr (g, x, l)"
    and len: "length g = ?N"
    and rows: "\<forall>row\<in>set (take (sum_list lengths) g). posterior_row ?K row"
    unfolding forward_backward_unfold by auto
  from rows len total have "\<forall>row\<in>set g. length row = ?K \<and> fsum row = Fin 1
           \<and> \<bar>the_fin (fsum row) - 1\<bar> \<le> 1 / 10 ^ 6"
    by (simp add: posterior_row_def)
  with r len show ?thesis by blast
qed

theorem gamma_rows_witness:
  "0 < n_states (stub_cfg 2 1 ''risk'')
   \<and> nonneg_vec (n_states (stub_cfg 2 1 ''risk''))
        (startprob \<lparr>experts = [0::nat, 0], startprob = [Fin (1 / 2), Fin (1 / 2)],
           transmat = [[Fin (9 / 10), Fin (1 / 10)], [Fin (1 / 10), Fin (9 / 10)]],
           monitor = [], rng = ()\<rparr>)
   \<and> nonneg_matrix (n_states (stub_cfg 2 1 ''risk'')) (n_states (stub_cfg 2 1 ''risk''))
        (transmat \<lparr>experts = [0::nat, 0], startprob = [Fin (1 / 2), Fin (1 / 2)],
           transmat = [[Fin (9 / 10), Fin (1 / 10)], [Fin (1 / 10), Fin (9 / 10)]],
           monitor = [], rng = ()\<rparr>)
   \<and> finite_vec (n_states (stub_cfg 2 1 ''risk'')) [Fin 0, Fin 0]
   \<and> (0::nat) < 2
   \<and> sum_list [2] = length [[Fin 0, Fin 0], [Fin 0, Fin 0]]
   \<and> forward_backward (stub_cfg 2 1 ''risk'')
        \<lparr>experts = [0::nat, 0], startprob = [Fin (1 / 2), Fin (1 / 2)],
           transmat = [[Fin (9 / 10), Fin (1 / 10)], [Fin (1 / 10), Fin (9 / 10)]],
           monitor = [], rng = ()\<rparr>
        [[Fin 0, Fin 0], [Fin 0, Fin 0]] [2]
      = Inr ([[Fin (1 / 2), Fin (1 / 2)], [Fin (1 / 2), Fin (1 / 2)]],
             [[Fin (9000000001 / 20000000004), Fin (1000000001 / 20000000004)],
              [Fin (1000000001 / 20000000004), Fin (9000000001 / 20000000004)]],
             Fin (ln (25000000010000000001 / 25000000000000000000)))
   \<and> length [Fin (1 / 2), Fin (1 / 2)] = n_states (stub_cfg 2 1 ''risk'')
   \<and> fsum [Fin (1 / 2), Fin (1 / 2)] = Fin 1
   \<and> \<bar>the_fin (fsum [Fin (1 / 2), Fin (1 / 2)]) - 1\<bar> \<le> 1 / 10 ^ 6"
proof -
  let ?cfg = "stub_cfg 2 1 ''risk''"
  let ?self = "\<lparr>experts = [0::nat, 0], startprob = [Fin (1 / 2), Fin (1 / 2)],
           transmat = [[Fin (9 / 10), Fin (1 / 10)], [Fin (1 / 10), Fin (9 / 10)]],
           monitor = [], rng = ()\<rparr>"
  let ?le = "[[Fin 0, Fin 0], [Fin 0, Fin 0]]"
  have K: "0 < n_states ?cfg" by (simp add: stub_cfg_def)
  have sp: "nonneg_vec (n_states ?cfg) (startprob ?self)"
    by (simp add: nonneg_vec_def stub_cfg_def)
  have tm: "nonneg_matrix (n_states ?cfg) (n_states ?cfg) (transmat ?self)"
    by (simp add: nonneg_matrix_def stub_cfg_def)
  have le: "\<forall>row\<in>set ?le. finite_vec (n_states ?cfg) row"
    by (simp add: finite_vec_def stub_cfg_def)
  have pos: "\<forall>L\<in>set [2::nat]. 0 < L" by simp
  have total: "sum_list [2] = length ?le" by simp
  have fb: "forward_backward ?cfg ?self ?le [2]
      = Inr ([[Fin (1 / 2), Fin (1 / 2)], [Fin (1 / 2), Fin (1 / 2)]],
             [[Fin (9000000001 / 20000000004), Fin (1000000001 / 20000000004)],
              [Fin (1000000001 / 20000000004), Fin (9000000001 / 20000000004)]],
             Fin (ln (25000000010000000001 / 25000000000000000000)))"
    by (simp add: eval_defs exp_add exp_diff exp_minus)
  from gamma_rows_sum_to_one [OF K sp tm le pos total] fb
  have "\<forall>row\<in>set [[Fin (1 / 2), Fin (1 / 2)], [Fin (1 / 2), Fin (1 / 2)]].
         length row = n_states ?cfg \<and> fsum row = Fin 1
         \<and> \<bar>the_fin (fsum row) - 1\<bar> \<le> 1 / 10 ^ 6"
    by simp
  with K sp tm le pos total fb show ?thesis
    by (simp add: stub_cfg_def finite_vec_def)
qed

end
